theory Spec2Isabelle
  imports Main "HOL-Library.Sublist"
begin

section \<open>JavaScript strings\<close>

text \<open>
  A string is a list of code units; the model covers texts whose code units are below 256,
  so a \<^typ>\<open>char\<close> is one code unit. Of the characters that JavaScript counts as white space
  (\<^verbatim>\<open>String.prototype.trim\<close>, the class \<^verbatim>\<open>\s\<close>), those below 256 are tab, line feed,
  vertical tab, form feed, carriage return, space and the no-break space.
\<close>

definition js_whitespace :: "char \<Rightarrow> bool" where
  "js_whitespace c =
     (c = CHR 0x09 \<or> c = CHR 0x0A \<or> c = CHR 0x0B \<or> c = CHR 0x0C \<or> c = CHR 0x0D
      \<or> c = CHR 0x20 \<or> c = CHR 0xA0)"

definition trim :: "string \<Rightarrow> string" where
  "trim s = rev (dropWhile js_whitespace (rev (dropWhile js_whitespace s)))"

definition startsWith :: "string \<Rightarrow> string \<Rightarrow> bool" where
  "startsWith s p = prefix p s"

definition endsWith :: "string \<Rightarrow> string \<Rightarrow> bool" where
  "endsWith s p = prefix (rev p) (rev s)"

text \<open>\<^verbatim>\<open>s.includes(t)\<close>: \<open>t\<close> occurs in \<open>s\<close> as a contiguous substring (case-sensitive).\<close>

fun js_includes :: "string \<Rightarrow> string \<Rightarrow> bool" where
  "js_includes [] t = (t = [])"
| "js_includes (c # s) t = (prefix t (c # s) \<or> js_includes s t)"

text \<open>
  \<^verbatim>\<open>s.split('\n')\<close>: the pieces between consecutive line feeds; the empty text has the one
  piece \<open>''''\<close>. The first argument is the piece read so far.
\<close>

fun split_lines :: "string \<Rightarrow> string \<Rightarrow> string list" where
  "split_lines cur [] = [cur]"
| "split_lines cur (c # cs) =
     (if c = CHR 0x0A then cur # split_lines [] cs else split_lines (cur @ [c]) cs)"

text \<open>
  \<^verbatim>\<open>s.split(/X+/)\<close> for a character class \<open>X\<close> (given as the predicate \<open>sep\<close>): the pieces
  between maximal runs of separator characters. A run at the start or at the end of the
  text leaves an empty piece there, as in JavaScript. The flag says whether the scan is
  inside a run; the string argument before the input is the piece read so far.
\<close>

fun split_runs :: "(char \<Rightarrow> bool) \<Rightarrow> bool \<Rightarrow> string \<Rightarrow> string \<Rightarrow> string list" where
  "split_runs sep inrun cur [] = [cur]"
| "split_runs sep inrun cur (c # cs) =
     (if sep c then
        (if inrun then split_runs sep True [] cs else cur # split_runs sep True [] cs)
      else split_runs sep False (cur @ [c]) cs)"

definition split_tabs :: "string \<Rightarrow> string list" where
  "split_tabs s = split_runs (\<lambda>c. c = CHR 0x09) False [] s"

text \<open>
  \<^verbatim>\<open>toUpperCase\<close>, exact on ASCII text: the letters a to z are mapped, every other code
  unit is kept. JavaScript also changes letters outside ASCII (from code unit \<open>0xB5\<close> on);
  the model keeps them, so it describes the program on ASCII record types only, which is
  what the type of a DNS record is.
\<close>

definition upper_char :: "char \<Rightarrow> char" where
  "upper_char c =
     (if 97 \<le> (of_char c :: nat) \<and> (of_char c :: nat) \<le> 122
      then char_of ((of_char c :: nat) - 32) else c)"

definition toUpperCase :: "string \<Rightarrow> string" where
  "toUpperCase s = map upper_char s"

section \<open>Errors\<close>

text \<open>
  A thrown JavaScript error, by its class, with its message. \<open>Error\<close> is what
  \<^verbatim>\<open>cloudflareRequest\<close> and the operations throw themselves (\<^verbatim>\<open>new Error(...)\<close>);
  \<open>TypeError\<close> and \<open>ReferenceError\<close> are raised by the language.
\<close>

datatype js_error = Error string | TypeError string | ReferenceError string

fun message :: "js_error \<Rightarrow> string" where
  "message (Error m) = m"
| "message (TypeError m) = m"
| "message (ReferenceError m) = m"

section \<open>Data model\<close>

text \<open>A zone as \<^verbatim>\<open>getDomains\<close> and \<^verbatim>\<open>getZoneId\<close> read it from the listing.\<close>

record zone =
  z_id :: string
  z_name :: string
  z_created_on :: string
  z_status :: string

record result_info =
  ri_page :: nat
  ri_per_page :: nat
  ri_total_count :: nat

text \<open>The payload of \<^verbatim>\<open>GET /zones\<close>: \<^verbatim>\<open>{ result, result_info }\<close>.\<close>

record zones_page =
  zp_result :: "zone list"
  zp_result_info :: result_info

text \<open>The query parameters of \<^verbatim>\<open>GET /zones\<close>; an absent parameter is \<open>None\<close>.\<close>

record zones_query =
  q_name :: "string option"
  q_page :: "nat option"
  q_per_page :: "nat option"

text \<open>
  A caller's DNS record \<^verbatim>\<open>{type, host, value, ttl, priority, proxied}\<close>; the last three
  may be absent.
\<close>

record dns_record =
  r_type :: string
  r_host :: string
  r_value :: string
  r_ttl :: "nat option"
  r_priority :: "nat option"
  r_proxied :: "bool option"

text \<open>The body \<^verbatim>\<open>insertDNSRecord\<close> posts.\<close>

record formatted_record =
  f_type :: string
  f_name :: string
  f_content :: string
  f_ttl :: nat
  f_priority :: "nat option"
  f_proxied :: bool

text \<open>
  The payload \<^verbatim>\<open>{ success, result }\<close> of a mutation; \<open>m_result\<close> stands for the text
  \<^verbatim>\<open>JSON.stringify(result)\<close>. The payloads are taken to have the shape the provider
  documents: \<open>result\<close> is an object whenever \<open>success\<close> holds.
\<close>

record mutation_reply =
  m_success :: bool
  m_result :: string

text \<open>A DNS record as the provider lists it.\<close>

record remote_record =
  rr_id :: string
  rr_type :: string
  rr_name :: string
  rr_content :: string

text \<open>A page rule: its id and the ids of its actions.\<close>

record page_rule =
  pr_id :: string
  pr_actions :: "string list"

record pagerules_reply =
  pg_success :: bool
  pg_result :: "page_rule list"

text \<open>The body of the rule \<^verbatim>\<open>changeDomainRedirect\<close> creates.\<close>

record new_rule =
  nr_target_value :: string
  nr_forwarding_url :: string
  nr_status_code :: nat
  nr_priority :: nat
  nr_status :: string

text \<open>
  The unit of bulk reporting, \<^verbatim>\<open>{success, domain, record, error}\<close>; \<open>o_record\<close> is
  \<^verbatim>\<open>{type, host, value}\<close> and, like \<open>o_error\<close>, may be absent.
\<close>

record operation_result =
  o_success :: bool
  o_domain :: string
  o_record :: "(string \<times> string \<times> string) option"
  o_error :: "string option"

text \<open>An entry \<^verbatim>\<open>{id, name}\<close> of a domain snapshot file.\<close>

record domain_entry =
  e_id :: string
  e_name :: string

section \<open>The provider\<close>

text \<open>
  Every request the program sends, with what identifies it: the method, the resource and
  the parameters or body.
\<close>

datatype request =
    GetZones zones_query
  | PostDnsRecord string formatted_record
  | GetDnsRecords string string
  | PatchZone string bool
  | GetPageRules string
  | DeletePageRule string string
  | PostPageRule string new_rule

text \<open>
  The provider is outside the program. It is a parameter of the model: a state \<open>'w\<close> of
  its own and, for every endpoint, a function from the request and the state to the
  answer and the next state. An answer is \<open>Inr\<close> the parsed payload, or \<open>Inl\<close> the error
  detail (the provider's first error message, or the transport's) when the request fails.
\<close>

record 'w remote =
  get_zones :: "zones_query \<Rightarrow> 'w \<Rightarrow> (string + zones_page) \<times> 'w"
  post_dns_record :: "string \<Rightarrow> formatted_record \<Rightarrow> 'w \<Rightarrow> (string + mutation_reply) \<times> 'w"
  get_dns_records :: "string \<Rightarrow> string \<Rightarrow> 'w \<Rightarrow> (string + remote_record list) \<times> 'w"
  patch_zone :: "string \<Rightarrow> bool \<Rightarrow> 'w \<Rightarrow> (string + mutation_reply) \<times> 'w"
  get_pagerules :: "string \<Rightarrow> 'w \<Rightarrow> (string + pagerules_reply) \<times> 'w"
  delete_pagerule :: "string \<Rightarrow> string \<Rightarrow> 'w \<Rightarrow> (string + mutation_reply) \<times> 'w"
  post_pagerule :: "string \<Rightarrow> new_rule \<Rightarrow> 'w \<Rightarrow> (string + mutation_reply) \<times> 'w"

text \<open>
  \<^verbatim>\<open>cloudflareRequest\<close>: one attempt; a failure is thrown as \<^verbatim>\<open>new Error(errorDetails)\<close>.
  Every operation below returns its value, the provider's next state and the requests it
  sent, in order.
\<close>

definition cloudflareRequest ::
  "request \<Rightarrow> ('w \<Rightarrow> (string + 'a) \<times> 'w) \<Rightarrow> 'w \<Rightarrow> (js_error + 'a) \<times> 'w \<times> request list" where
  "cloudflareRequest req endpoint w =
     (case endpoint w of
        (Inl errorDetails, w') \<Rightarrow> (Inl (Error errorDetails), w', [req])
      | (Inr d, w') \<Rightarrow> (Inr d, w', [req]))"

section \<open>Zone lookup\<close>

text \<open>
  \<^verbatim>\<open>getZoneId\<close>: \<^verbatim>\<open>result[0].id\<close>. On an empty \<open>result\<close>, \<^verbatim>\<open>result[0]\<close> is
  \<^verbatim>\<open>undefined\<close> and reading \<^verbatim>\<open>.id\<close> of it throws a \<open>TypeError\<close>.
\<close>

definition getZoneId :: "'w remote \<Rightarrow> string \<Rightarrow> 'w \<Rightarrow> (js_error + string) \<times> 'w \<times> request list" where
  "getZoneId R domain w =
     (let queryParams = \<lparr>q_name = Some domain, q_page = None, q_per_page = None\<rparr> in
      case cloudflareRequest (GetZones queryParams) (get_zones R queryParams) w of
        (Inl e, w', t) \<Rightarrow> (Inl e, w', t)
      | (Inr d, w', t) \<Rightarrow>
          (case zp_result d of
             [] \<Rightarrow> (Inl (TypeError ''Cannot read properties of undefined (reading 'id')''), w', t)
           | z # _ \<Rightarrow> (Inr (z_id z), w', t)))"

section \<open>Content filter\<close>

text \<open>\<^verbatim>\<open>getFilteredDNSRecords\<close>: the records of the requested type, filtered by content.\<close>

definition getFilteredDNSRecords ::
  "'w remote \<Rightarrow> string \<Rightarrow> string \<Rightarrow> string \<Rightarrow> 'w \<Rightarrow> (js_error + remote_record list) \<times> 'w \<times> request list" where
  "getFilteredDNSRecords R zoneId content type w =
     (case cloudflareRequest (GetDnsRecords zoneId type) (get_dns_records R zoneId type) w of
        (Inl e, w', t) \<Rightarrow> (Inl e, w', t)
      | (Inr result, w', t) \<Rightarrow>
          (Inr (filter (\<lambda>record.
                  if type = ''TXT'' \<and> content = ''dkim''
                  then js_includes (rr_content record) content \<or> js_includes (rr_name record) ''_domainkey''
                  else js_includes (rr_content record) content) result), w', t))"

section \<open>Bulk provisioner\<close>

text \<open>
  The caller's records are JavaScript objects and \<^verbatim>\<open>insertDNSRecords\<close> assigns to their
  \<^verbatim>\<open>host\<close> field, so the model keeps them in a store: a record list is a list of
  references, and the store maps each reference to the object's current fields.
\<close>

type_synonym ref = nat

type_synonym heap = "ref \<Rightarrow> dns_record"

text \<open>The body \<^verbatim>\<open>insertDNSRecord\<close> builds from a record (\<^verbatim>\<open>formattedRecord\<close>).\<close>

definition formattedRecord :: "dns_record \<Rightarrow> formatted_record" where
  "formattedRecord record =
     \<lparr>f_type = toUpperCase (r_type record),
      f_name = r_host record,
      f_content = r_value record,
      f_ttl = (case r_ttl record of None \<Rightarrow> 3600 | Some n \<Rightarrow> if n = 0 then 3600 else n),
      f_priority = r_priority record,
      f_proxied = (case r_proxied record of None \<Rightarrow> False | Some b \<Rightarrow> b)\<rparr>"

text \<open>
  \<^verbatim>\<open>insertDNSRecord\<close>: one create call; the provider's success flag decides, not only the
  transport.
\<close>

definition insertDNSRecord ::
  "'w remote \<Rightarrow> string \<Rightarrow> dns_record \<Rightarrow> 'w \<Rightarrow> (js_error + mutation_reply) \<times> 'w \<times> request list" where
  "insertDNSRecord R zoneId record w =
     (case cloudflareRequest (PostDnsRecord zoneId (formattedRecord record))
             (post_dns_record R zoneId (formattedRecord record)) w of
        (Inl e, w', t) \<Rightarrow> (Inl e, w', t)
      | (Inr reply, w', t) \<Rightarrow>
          if m_success reply then (Inr reply, w', t)
          else (Inl (Error (''Failed to create DNS record: '' @ m_result reply)), w', t))"

text \<open>
  The \<^verbatim>\<open>for (let record of records)\<close> loop of \<^verbatim>\<open>insertDNSRecords\<close>. The assignment
  \<^verbatim>\<open>record.host = domain\<close> updates the store; the result entry and the request read the
  object after it.
\<close>

fun insertDNSRecords_loop ::
  "'w remote \<Rightarrow> string \<Rightarrow> string \<Rightarrow> ref list \<Rightarrow> operation_result list \<Rightarrow> heap \<Rightarrow> 'w
     \<Rightarrow> operation_result list \<times> heap \<times> 'w \<times> request list" where
  "insertDNSRecords_loop R domain zoneId [] results h w = (results, h, w, [])"
| "insertDNSRecords_loop R domain zoneId (r # rs) results h w =
     (let h1 = (if r_host (h r) = ''@'' \<or> r_host (h r) = [] then h(r := (h r)\<lparr>r_host := domain\<rparr>) else h);
          record = h1 r;
          info = Some (r_type record, r_host record, r_value record)
      in case insertDNSRecord R zoneId record w of
           (res, w1, t1) \<Rightarrow>
             (let entry = (case res of
                    Inr result \<Rightarrow> \<lparr>o_success = True, o_domain = domain, o_record = info, o_error = None\<rparr>
                  | Inl error \<Rightarrow> \<lparr>o_success = False, o_domain = domain, o_record = info,
                                 o_error = Some (message error)\<rparr>)
              in case insertDNSRecords_loop R domain zoneId rs (results @ [entry]) h1 w1 of
                   (results', h2, w2, t2) \<Rightarrow> (results', h2, w2, t1 @ t2)))"

text \<open>
  \<^verbatim>\<open>insertDNSRecords\<close>: resolve the zone, then the loop. A failed resolution is caught and
  answered with one result.
\<close>

definition insertDNSRecords ::
  "'w remote \<Rightarrow> string \<Rightarrow> ref list \<Rightarrow> heap \<Rightarrow> 'w \<Rightarrow> operation_result list \<times> heap \<times> 'w \<times> request list" where
  "insertDNSRecords R domain records h w =
     (case getZoneId R domain w of
        (Inl error, w1, t1) \<Rightarrow>
          ([\<lparr>o_success = False, o_domain = domain, o_record = None, o_error = Some (message error)\<rparr>],
           h, w1, t1)
      | (Inr zoneId, w1, t1) \<Rightarrow>
          (case insertDNSRecords_loop R domain zoneId records [] h w1 of
             (results, h2, w2, t2) \<Rightarrow> (results, h2, w2, t1 @ t2)))"

text \<open>
  The \<^verbatim>\<open>for (const domain of domains)\<close> loop of \<^verbatim>\<open>createSameDNSRecordsForManyDomains\<close>:
  the same \<open>records\<close> list, and so the same objects, for every domain. Its
  \<^verbatim>\<open>catch\<close> is never entered, since \<^verbatim>\<open>insertDNSRecords\<close> throws nothing.
\<close>

fun createSame_loop ::
  "'w remote \<Rightarrow> string list \<Rightarrow> ref list \<Rightarrow> operation_result list \<Rightarrow> heap \<Rightarrow> 'w
     \<Rightarrow> operation_result list \<times> heap \<times> 'w \<times> request list" where
  "createSame_loop R [] records results h w = (results, h, w, [])"
| "createSame_loop R (domain # domains) records results h w =
     (case insertDNSRecords R domain records h w of
        (domainResults, h1, w1, t1) \<Rightarrow>
          (case createSame_loop R domains records (results @ domainResults) h1 w1 of
             (results', h2, w2, t2) \<Rightarrow> (results', h2, w2, t1 @ t2)))"

definition createSameDNSRecordsForManyDomains ::
  "'w remote \<Rightarrow> string list \<Rightarrow> ref list \<Rightarrow> heap \<Rightarrow> 'w \<Rightarrow> operation_result list \<times> heap \<times> 'w \<times> request list" where
  "createSameDNSRecordsForManyDomains R domains records h w = createSame_loop R domains records [] h w"

text \<open>
  Two notions for stating what the provisioner does to a record. A record denotes the zone
  apex when its host is \<^verbatim>\<open>"@"\<close> or empty; normalizing it for a domain writes the domain
  name into the host of an apex record and leaves any other record as it is.
\<close>

definition apex :: "dns_record \<Rightarrow> bool" where
  "apex record = (r_host record = ''@'' \<or> r_host record = [])"

definition normalized :: "string \<Rightarrow> dns_record \<Rightarrow> dns_record" where
  "normalized domain record = (if apex record then record\<lparr>r_host := domain\<rparr> else record)"

text \<open>The create calls among the requests sent: the zone id and the host of each.\<close>

fun submitted :: "request list \<Rightarrow> (string \<times> string) list" where
  "submitted [] = []"
| "submitted (PostDnsRecord z f # t) = (z, f_name f) # submitted t"
| "submitted (_ # t) = submitted t"

section \<open>Pausing zones\<close>

text \<open>
  What a bulk operation returns to its caller: the \<^verbatim>\<open>results\<close> array, or
  \<^verbatim>\<open>undefined\<close> when the function has no \<^verbatim>\<open>return\<close> of a value.
\<close>

datatype js_return = Undefined | Results "operation_result list"

definition pauseZone ::
  "'w remote \<Rightarrow> string \<Rightarrow> bool \<Rightarrow> 'w \<Rightarrow> (js_error + mutation_reply) \<times> 'w \<times> request list" where
  "pauseZone R domain pause w =
     (case getZoneId R domain w of
        (Inl e, w1, t1) \<Rightarrow> (Inl e, w1, t1)
      | (Inr zoneId, w1, t1) \<Rightarrow>
          (case cloudflareRequest (PatchZone zoneId pause) (patch_zone R zoneId pause) w1 of
             (Inl e, w2, t2) \<Rightarrow> (Inl e, w2, t1 @ t2)
           | (Inr reply, w2, t2) \<Rightarrow>
               if m_success reply then (Inr reply, w2, t1 @ t2)
               else (Inl (Error (''Failed to '' @ (if pause then ''pause'' else ''resume'') @ '' zone'')),
                     w2, t1 @ t2)))"

fun pauseManyZones_loop ::
  "'w remote \<Rightarrow> string list \<Rightarrow> bool \<Rightarrow> operation_result list \<Rightarrow> 'w
     \<Rightarrow> operation_result list \<times> 'w \<times> request list" where
  "pauseManyZones_loop R [] pause results w = (results, w, [])"
| "pauseManyZones_loop R (domain # domains) pause results w =
     (case pauseZone R domain pause w of
        (res, w1, t1) \<Rightarrow>
          (let entry = (case res of
                 Inr result \<Rightarrow> \<lparr>o_success = m_success result, o_domain = domain, o_record = None,
                                o_error = None\<rparr>
               | Inl error \<Rightarrow> \<lparr>o_success = False, o_domain = domain, o_record = None,
                               o_error = Some (message error)\<rparr>)
           in case pauseManyZones_loop R domains pause (results @ [entry]) w1 of
                (results', w2, t2) \<Rightarrow> (results', w2, t1 @ t2)))"

definition pauseManyZones ::
  "'w remote \<Rightarrow> string list \<Rightarrow> bool \<Rightarrow> 'w \<Rightarrow> js_return \<times> 'w \<times> request list" where
  "pauseManyZones R domains pause w =
     (case pauseManyZones_loop R domains pause [] w of
        (results, w', t) \<Rightarrow> (Results results, w', t))"

section \<open>Redirect replacer\<close>

definition getPageRules ::
  "'w remote \<Rightarrow> string \<Rightarrow> 'w \<Rightarrow> (js_error + page_rule list) \<times> 'w \<times> request list" where
  "getPageRules R zoneId w =
     (case cloudflareRequest (GetPageRules zoneId) (get_pagerules R zoneId) w of
        (Inl e, w', t) \<Rightarrow> (Inl e, w', t)
      | (Inr reply, w', t) \<Rightarrow>
          if pg_success reply then (Inr (pg_result reply), w', t)
          else (Inl (Error ''Failed to fetch page rules''), w', t))"

text \<open>The rule \<^verbatim>\<open>changeDomainRedirect\<close> creates (\<^verbatim>\<open>newRule\<close>).\<close>

definition newRule :: "string \<Rightarrow> string \<Rightarrow> new_rule" where
  "newRule domain newRedirectUrl =
     (let formattedDomain = (if endsWith domain ''/'' then butlast domain else domain) in
      \<lparr>nr_target_value = formattedDomain @ ''/*'',
       nr_forwarding_url = newRedirectUrl,
       nr_status_code = 301,
       nr_priority = 1,
       nr_status = ''active''\<rparr>)"

text \<open>
  The \<^verbatim>\<open>try\<close> block of \<^verbatim>\<open>changeDomainRedirect\<close>; \<open>Inl\<close> is the error thrown inside it.
  The answer to the delete call is not inspected. The line appended to the error log
  when the create call reports no success is not part of the model.
\<close>

definition changeDomainRedirect_try ::
  "'w remote \<Rightarrow> string \<Rightarrow> string \<Rightarrow> 'w \<Rightarrow> (js_error + unit) \<times> 'w \<times> request list" where
  "changeDomainRedirect_try R domain newRedirectUrl w =
     (case getZoneId R domain w of
        (Inl e, w1, t1) \<Rightarrow> (Inl e, w1, t1)
      | (Inr zoneId, w1, t1) \<Rightarrow>
          (case getPageRules R zoneId w1 of
             (Inl e, w2, t2) \<Rightarrow> (Inl e, w2, t1 @ t2)
           | (Inr pageRules, w2, t2) \<Rightarrow>
               (let forwardingRule =
                      find (\<lambda>rule. list_ex (\<lambda>action. action = ''forwarding_url'') (pr_actions rule)) pageRules;
                    deleted =
                      (case forwardingRule of
                         None \<Rightarrow> (Inr (), w2, [])
                       | Some rule \<Rightarrow>
                           (case cloudflareRequest (DeletePageRule zoneId (pr_id rule))
                                   (delete_pagerule R zoneId (pr_id rule)) w2 of
                              (Inl e, w3, t3) \<Rightarrow> (Inl e, w3, t3)
                            | (Inr _, w3, t3) \<Rightarrow> (Inr (), w3, t3)))
                in case deleted of
                     (Inl e, w3, t3) \<Rightarrow> (Inl e, w3, t1 @ t2 @ t3)
                   | (Inr _, w3, t3) \<Rightarrow>
                       (case cloudflareRequest (PostPageRule zoneId (newRule domain newRedirectUrl))
                               (post_pagerule R zoneId (newRule domain newRedirectUrl)) w3 of
                          (Inl e, w4, t4) \<Rightarrow> (Inl e, w4, t1 @ t2 @ t3 @ t4)
                        | (Inr reply, w4, t4) \<Rightarrow>
                            if \<not> m_success reply
                            then (Inl (Error ''Failed to change domain redirect''), w4, t1 @ t2 @ t3 @ t4)
                            else (Inr (), w4, t1 @ t2 @ t3 @ t4)))))"

text \<open>
  \<^verbatim>\<open>changeDomainRedirect\<close>: the \<^verbatim>\<open>try\<close> block and its \<^verbatim>\<open>catch\<close>. The handler starts by
  formatting a message with \<^verbatim>\<open>zoneId\<close>, a \<^verbatim>\<open>const\<close> of the \<^verbatim>\<open>try\<close> block that is not in
  scope in the handler (nor declared anywhere else in the module), so evaluating it throws
  a \<open>ReferenceError\<close> in place of the caught error, before anything else in the handler
  runs. The handler sends no request.
\<close>

definition changeDomainRedirect ::
  "'w remote \<Rightarrow> string \<Rightarrow> string \<Rightarrow> 'w \<Rightarrow> (js_error + unit) \<times> 'w \<times> request list" where
  "changeDomainRedirect R domain newRedirectUrl w =
     (case changeDomainRedirect_try R domain newRedirectUrl w of
        (Inl error, w', t) \<Rightarrow> (Inl (ReferenceError ''zoneId is not defined''), w', t)
      | (Inr u, w', t) \<Rightarrow> (Inr u, w', t))"

text \<open>
  \<^verbatim>\<open>changeManyDomainRedirects\<close>: every failure is caught and logged; the function keeps no
  results and returns nothing.
\<close>

fun changeManyDomainRedirects ::
  "'w remote \<Rightarrow> string list \<Rightarrow> string \<Rightarrow> 'w \<Rightarrow> js_return \<times> 'w \<times> request list" where
  "changeManyDomainRedirects R [] newRedirectUrl w = (Undefined, w, [])"
| "changeManyDomainRedirects R (domain # domainNames) newRedirectUrl w =
     (case changeDomainRedirect R domain newRedirectUrl w of
        (res, w1, t1) \<Rightarrow>
          (case changeManyDomainRedirects R domainNames newRedirectUrl w1 of
             (ret, w2, t2) \<Rightarrow> (ret, w2, t1 @ t2)))"

section \<open>Paginated fetcher\<close>

text \<open>
  The \<^verbatim>\<open>while (hasMorePages)\<close> loop of \<^verbatim>\<open>getDomains\<close>, with the loop variables
  \<open>allResults\<close> and \<open>page\<close>, the provider's state and the requests sent so far. The loop
  may run forever (a provider that always reports a larger total), so the result is an
  option: \<open>None\<close> is a loop that never ends. \<open>contains\<close> is the optional filter term; an
  empty term counts as absent. The projection, the filters and the sort that follow the
  loop in \<^verbatim>\<open>getDomains\<close> are not part of this function.
\<close>

definition getDomains_queryParams :: "string option \<Rightarrow> nat \<Rightarrow> zones_query" where
  "getDomains_queryParams contains page =
     \<lparr>q_name = (case contains of
                  None \<Rightarrow> None
                | Some c \<Rightarrow> if c = [] then None else Some (''contains:'' @ c)),
      q_page = Some page,
      q_per_page = Some 50\<rparr>"

partial_function (option) getDomains_pages ::
  "'w remote \<Rightarrow> string option \<Rightarrow> zone list \<Rightarrow> nat \<Rightarrow> 'w \<Rightarrow> request list
     \<Rightarrow> ((js_error + zone list) \<times> 'w \<times> request list) option" where
  "getDomains_pages R contains allResults page w sent =
     (let queryParams = getDomains_queryParams contains page
      in case cloudflareRequest (GetZones queryParams) (get_zones R queryParams) w of
           (Inl e, w', t) \<Rightarrow> Some (Inl e, w', sent @ t)
         | (Inr d, w', t) \<Rightarrow>
             if ri_page (zp_result_info d) * ri_per_page (zp_result_info d)
                  \<ge> ri_total_count (zp_result_info d)
             then Some (Inr (allResults @ zp_result d), w', sent @ t)
             else getDomains_pages R contains (allResults @ zp_result d) (page + 1) w' (sent @ t))"

section \<open>Mapping builder\<close>

text \<open>
  \<^verbatim>\<open>recordsMap\<close> is a plain object created by \<^verbatim>\<open>{}\<close>, so a lookup
  \<^verbatim>\<open>recordsMap[domain]\<close> also finds the properties it inherits from \<^verbatim>\<open>Object.prototype\<close>.
  These are their names; each is a function or an object, hence truthy, and none has a
  \<^verbatim>\<open>push\<close> method.
\<close>

definition Object_prototype_keys :: "string list" where
  "Object_prototype_keys =
     [''constructor'', ''__defineGetter__'', ''__defineSetter__'', ''hasOwnProperty'',
      ''__lookupGetter__'', ''__lookupSetter__'', ''isPrototypeOf'', ''propertyIsEnumerable'',
      ''toString'', ''valueOf'', ''__proto__'', ''toLocaleString'']"

text \<open>The record built for a line: a TXT record at the zone apex.\<close>

definition txt_record :: "string \<Rightarrow> dns_record" where
  "txt_record v =
     \<lparr>r_type = ''TXT'', r_host = [], r_value = v, r_ttl = Some 3600, r_priority = None,
      r_proxied = None\<rparr>"

text \<open>
  The \<^verbatim>\<open>for (const line of lines)\<close> loop of \<^verbatim>\<open>createDomainRecordsMapFromTextFile\<close>.
  \<open>recordsMap\<close> maps a domain to its records (the own properties of the object);
  \<open>reports\<close> are the lines written with \<^verbatim>\<open>console.error\<close>. For a domain that names an
  inherited property, \<^verbatim>\<open>recordsMap[domain]\<close> is truthy, no array is stored, and
  \<^verbatim>\<open>recordsMap[domain].push(record)\<close> throws a \<open>TypeError\<close>, which ends the loop.
\<close>

fun createDomainRecordsMap_loop ::
  "string list \<Rightarrow> (string \<rightharpoonup> dns_record list) \<Rightarrow> string list
     \<Rightarrow> (js_error + (string \<rightharpoonup> dns_record list)) \<times> string list" where
  "createDomainRecordsMap_loop [] recordsMap reports = (Inr recordsMap, reports)"
| "createDomainRecordsMap_loop (line # lines) recordsMap reports =
     (if trim line = [] \<or> startsWith (trim line) ''#''
      then createDomainRecordsMap_loop lines recordsMap reports
      else
        (let parts = split_tabs (trim line) in
         if length parts < 2
         then createDomainRecordsMap_loop lines recordsMap
                (reports @ [''Invalid line format in records file: '' @ line])
         else
           (let domain = parts ! 0; v = parts ! 1 in
            if domain \<in> set Object_prototype_keys
            then (Inl (TypeError ''recordsMap[domain].push is not a function''), reports)
            else
              createDomainRecordsMap_loop lines
                (recordsMap(domain \<mapsto>
                   (case recordsMap domain of None \<Rightarrow> [] | Some records \<Rightarrow> records) @ [txt_record v]))
                reports)))"

text \<open>
  \<^verbatim>\<open>createDomainRecordsMapFromTextFile\<close>. \<open>readFile\<close> is the injected read capability:
  the text of the file, or the error of the failed read. Any error is caught, reported,
  and answered with \<^verbatim>\<open>null\<close> (\<open>None\<close>).
\<close>

definition createDomainRecordsMapFromTextFile ::
  "(string \<Rightarrow> js_error + string) \<Rightarrow> string \<Rightarrow> (string \<rightharpoonup> dns_record list) option \<times> string list" where
  "createDomainRecordsMapFromTextFile readFile filePath =
     (case readFile filePath of
        Inl error \<Rightarrow> (None, [''Error reading domain records text file: '' @ message error])
      | Inr content \<Rightarrow>
          (case createDomainRecordsMap_loop (split_lines [] content) Map.empty [] of
             (Inl error, reports) \<Rightarrow>
               (None, reports @ [''Error reading domain records text file: '' @ message error])
           | (Inr recordsMap, reports) \<Rightarrow> (Some recordsMap, reports)))"

text \<open>
  For stating what the builder computes from the lines of a text: a data line is a line
  that is neither blank nor a comment; its fields are the pieces of the trimmed line
  between runs of tabs; a data line with at least two fields is an entry (its first two
  fields), one with fewer is rejected; the records of a domain are the TXT records of its
  entries, in the order of the lines.
\<close>

definition data_line :: "string \<Rightarrow> bool" where
  "data_line l = (trim l \<noteq> [] \<and> \<not> startsWith (trim l) ''#'')"

definition line_fields :: "string \<Rightarrow> string list" where
  "line_fields l = split_tabs (trim l)"

definition entries_of :: "string list \<Rightarrow> (string \<times> string) list" where
  "entries_of lines =
     map (\<lambda>l. (line_fields l ! 0, line_fields l ! 1))
       (filter (\<lambda>l. data_line l \<and> 2 \<le> length (line_fields l)) lines)"

definition rejected_of :: "string list \<Rightarrow> string list" where
  "rejected_of lines = filter (\<lambda>l. data_line l \<and> length (line_fields l) < 2) lines"

definition records_of :: "(string \<times> string) list \<Rightarrow> string \<Rightarrow> dns_record list" where
  "records_of entries d = map (\<lambda>(d', v). txt_record v) (filter (\<lambda>(d', v). d' = d) entries)"

section \<open>Set-difference reconciler\<close>

text \<open>
  A JavaScript \<^verbatim>\<open>Map\<close> as the list of its entries in insertion order. \<^verbatim>\<open>set\<close> on a key
  that is present replaces the value where the entry stands; on a new key it appends.
\<close>

fun Map_set :: "('k \<times> 'v) list \<Rightarrow> 'k \<Rightarrow> 'v \<Rightarrow> ('k \<times> 'v) list" where
  "Map_set [] k v = [(k, v)]"
| "Map_set ((k', v') # m) k v = (if k' = k then (k, v) # m else (k', v') # Map_set m k v)"

definition Map_delete :: "('k \<times> 'v) list \<Rightarrow> 'k \<Rightarrow> ('k \<times> 'v) list" where
  "Map_delete m k = filter (\<lambda>(k', v). k' \<noteq> k) m"

text \<open>
  \<^verbatim>\<open>writeDomainsToFileByExclusion\<close>. \<open>dir\<close> is the \<^verbatim>\<open>./domains\<close> directory as
  \<^verbatim>\<open>readdir\<close> lists it: each file name with the entries \<^verbatim>\<open>JSON.parse\<close> reads from it.
  The result is the file name and the entries written to it; a missing \<^verbatim>\<open>all.txt\<close>
  makes the read throw.
\<close>

definition writeDomainsToFileByExclusion ::
  "(string \<times> domain_entry list) list \<Rightarrow> string \<Rightarrow> js_error + (string \<times> domain_entry list)" where
  "writeDomainsToFileByExclusion dir outputFileName =
     (case map_of dir ''all.txt'' of
        None \<Rightarrow> Inl (Error (''ENOENT: no such file or directory, open ''
                           @ [CHR 0x27] @ ''domains/all.txt'' @ [CHR 0x27]))
      | Some allDomainsContent \<Rightarrow>
          (let allDomains = fold (\<lambda>domain m. Map_set m (e_name domain) (e_id domain)) allDomainsContent [];
               remaining =
                 fold (\<lambda>(file, content) m.
                         if file \<noteq> ''all.txt'' \<and> endsWith file ''.txt''
                         then fold (\<lambda>domain m'. Map_delete m' domain) (map e_name content) m
                         else m)
                   dir allDomains;
               filteredDomains = map (\<lambda>(name, id). \<lparr>e_id = id, e_name = name\<rparr>) remaining
           in Inr (outputFileName, filteredDomains)))"

text \<open>
  For stating what the reconciler computes: the names listed by the exclusion files of a
  directory (its \<^verbatim>\<open>.txt\<close> files other than \<^verbatim>\<open>all.txt\<close>), and the set difference in the
  spec's words: the snapshot entries whose names appear in no exclusion list, in the
  snapshot's order.
\<close>

definition exclusion_names :: "(string \<times> domain_entry list) list \<Rightarrow> string list" where
  "exclusion_names dir =
     concat (map (\<lambda>(file, content).
                    if file \<noteq> ''all.txt'' \<and> endsWith file ''.txt'' then map e_name content else [])
               dir)"

definition set_difference :: "domain_entry list \<Rightarrow> string list \<Rightarrow> domain_entry list" where
  "set_difference snapshot names = filter (\<lambda>e. e_name e \<notin> set names) snapshot"

section \<open>Test doubles\<close>

text \<open>A zone with a given name.\<close>

definition zone_named :: "string \<Rightarrow> zone" where
  "zone_named n = \<lparr>z_id = ''id-'' @ n, z_name = n, z_created_on = ''2025-01-01'', z_status = ''active''\<rparr>"

text \<open>A provider that is unreachable: every request fails.\<close>

definition offline :: "'w remote" where
  "offline =
     \<lparr>get_zones = (\<lambda>q w. (Inl ''offline'', w)),
      post_dns_record = (\<lambda>z f w. (Inl ''offline'', w)),
      get_dns_records = (\<lambda>z ty w. (Inl ''offline'', w)),
      patch_zone = (\<lambda>z p w. (Inl ''offline'', w)),
      get_pagerules = (\<lambda>z w. (Inl ''offline'', w)),
      delete_pagerule = (\<lambda>z r w. (Inl ''offline'', w)),
      post_pagerule = (\<lambda>z n w. (Inl ''offline'', w))\<rparr>"

text \<open>
  A listing of \<open>zones\<close> served in pages of \<open>P\<close> items: page \<open>p\<close> holds the items from
  position \<open>(p - 1) * P\<close> on, and every answer reports the page, the page size and the
  total count.
\<close>

definition paged_listing :: "zone list \<Rightarrow> nat \<Rightarrow> 'w remote" where
  "paged_listing zones P =
     offline\<lparr>get_zones := (\<lambda>q w.
        (let p = (case q_page q of None \<Rightarrow> 1 | Some p \<Rightarrow> p) in
         (Inr \<lparr>zp_result = take P (drop ((p - 1) * P) zones),
               zp_result_info = \<lparr>ri_page = p, ri_per_page = P, ri_total_count = length zones\<rparr>\<rparr>,
          w)))\<rparr>"

text \<open>
  A small account. Its state is the list of page rules of its zones. The zone of
  \<^verbatim>\<open>down.example\<close> cannot be looked up, \<^verbatim>\<open>absent.example\<close> is not in the account, every
  other name has a zone. Records are created and zones patched without error; a page rule
  is deleted by id; a page rule with an empty target URL is rejected.
\<close>

definition account :: "page_rule list remote" where
  "account =
     \<lparr>get_zones = (\<lambda>q w.
        (case q_name q of
           None \<Rightarrow>
             (Inr \<lparr>zp_result = [],
                   zp_result_info = \<lparr>ri_page = 1, ri_per_page = 50, ri_total_count = 0\<rparr>\<rparr>, w)
         | Some d \<Rightarrow>
             if d = ''down.example'' then (Inl ''connect ETIMEDOUT'', w)
             else if d = ''absent.example''
             then (Inr \<lparr>zp_result = [],
                         zp_result_info = \<lparr>ri_page = 1, ri_per_page = 20, ri_total_count = 0\<rparr>\<rparr>, w)
             else (Inr \<lparr>zp_result = [zone_named d],
                         zp_result_info = \<lparr>ri_page = 1, ri_per_page = 20, ri_total_count = 1\<rparr>\<rparr>, w))),
      post_dns_record = (\<lambda>z f w. (Inr \<lparr>m_success = True, m_result = ''{}''\<rparr>, w)),
      get_dns_records = (\<lambda>z ty w.
        (Inr [\<lparr>rr_id = ''1'', rr_type = ''TXT'', rr_name = ''mail._domainkey.example.com'',
                rr_content = ''v=DKIM1; p=abc''\<rparr>,
              \<lparr>rr_id = ''2'', rr_type = ''TXT'', rr_name = ''example.com'',
                rr_content = ''v=spf1 ~all''\<rparr>,
              \<lparr>rr_id = ''3'', rr_type = ''TXT'', rr_name = ''example.com'',
                rr_content = ''dkim-selector=x''\<rparr>], w)),
      patch_zone = (\<lambda>z p w. (Inr \<lparr>m_success = True, m_result = ''{}''\<rparr>, w)),
      get_pagerules = (\<lambda>z w. (Inr \<lparr>pg_success = True, pg_result = w\<rparr>, w)),
      delete_pagerule = (\<lambda>z r w.
        (Inr \<lparr>m_success = True, m_result = ''{}''\<rparr>, filter (\<lambda>rule. pr_id rule \<noteq> r) w)),
      post_pagerule = (\<lambda>z n w.
        if nr_forwarding_url n = [] then (Inl ''url is required'', w)
        else (Inr \<lparr>m_success = True, m_result = ''{}''\<rparr>,
              w @ [\<lparr>pr_id = ''new'', pr_actions = [''forwarding_url'']\<rparr>]))\<rparr>"

text \<open>
  The program's own data: the constants \<^verbatim>\<open>domains\<close> and \<^verbatim>\<open>gwsResellerDnsRecords\<close> of
  the source. The three record objects are the store's references 0, 1 and 2.
\<close>

definition domains :: "string list" where
  "domains = [''choose-nnn-capital.com'', ''choose-nnn-investing.com'']"

definition gwsResellerDnsRecords :: heap where
  "gwsResellerDnsRecords r =
     (if r = 0 then
        \<lparr>r_type = ''MX'', r_host = [], r_value = ''smtp.google.com'', r_ttl = None,
         r_priority = Some 1, r_proxied = None\<rparr>
      else if r = 1 then
        \<lparr>r_type = ''TXT'', r_host = ''_dmarc'', r_value = ''v=DMARC1; p=none'', r_ttl = None,
         r_priority = None, r_proxied = None\<rparr>
      else
        \<lparr>r_type = ''TXT'', r_host = [], r_value = ''v=spf1 include:_spf.google.com ~all'',
         r_ttl = None, r_priority = None, r_proxied = None\<rparr>)"

text \<open>
  A records file: a comment, a blank line, a tab-separated line, a line whose fields are
  separated by a space, and an indented line with a run of two tabs and a carriage return
  before the line feed.
\<close>

definition domains_txt :: string where
  "domains_txt =
     ''# verification records'' @ [CHR 0x0A] @
     [CHR 0x0A] @
     ''example.com'' @ [CHR 0x09] @ ''google-site-verification=abc'' @ [CHR 0x0A] @
     ''example.org google-site-verification=xyz'' @ [CHR 0x0A] @
     ''  example.com'' @ [CHR 0x09, CHR 0x09] @ ''v=spf1 include:_spf.google.com ~all'' @ [CHR 0x0D, CHR 0x0A]"

section \<open>Properties\<close>

lemma js_includes_sublist: "js_includes s t = sublist t s"
  by (induction s) (auto simp: sublist_Cons_right)

subsection \<open>Zone lookup\<close>

text \<open>
  Claim C10. Whenever the zone lookup for a domain succeeds with an empty result list (the
  domain is not in the account), \<^verbatim>\<open>getZoneId\<close> throws a \<open>TypeError\<close>, raised by reading
  \<^verbatim>\<open>.id\<close> of \<^verbatim>\<open>result[0]\<close>, and not an \<open>Error\<close> of the request layer. No check stands
  before the read: the only condition is that the list is empty, for any domain, provider
  and provider state. The lookup is the one request sent.
\<close>

theorem getZoneId_empty_result:
  assumes "get_zones R \<lparr>q_name = Some domain, q_page = None, q_per_page = None\<rparr> w = (Inr d, w')"
    and "zp_result d = []"
  shows "getZoneId R domain w =
           (Inl (TypeError ''Cannot read properties of undefined (reading 'id')''), w',
            [GetZones \<lparr>q_name = Some domain, q_page = None, q_per_page = None\<rparr>])"
  using assms by (simp add: getZoneId_def cloudflareRequest_def)

theorem getZoneId_empty_result_witness:
  "getZoneId account ''absent.example'' [] =
     (Inl (TypeError ''Cannot read properties of undefined (reading 'id')''), [],
      [GetZones \<lparr>q_name = Some ''absent.example'', q_page = None, q_per_page = None\<rparr>])"
  by (rule getZoneId_empty_result [where d = "\<lparr>zp_result = [],
        zp_result_info = \<lparr>ri_page = 1, ri_per_page = 20, ri_total_count = 0\<rparr>\<rparr>"])
     (simp_all add: account_def)

subsection \<open>Content filter\<close>

text \<open>
  Claim C9. When the record listing succeeds, \<^verbatim>\<open>getFilteredDNSRecords\<close> returns the listed
  records, in order, that pass the content filter: a record is kept if and only if its
  content contains the target as a substring; except that, when the requested type is
  \<^verbatim>\<open>TXT\<close> and the target is \<^verbatim>\<open>dkim\<close>, it is kept if and only if its content contains
  \<^verbatim>\<open>dkim\<close> or its name contains \<^verbatim>\<open>_domainkey\<close>. \<open>sublist t s\<close> is the library's
  \<open>\<exists>ps ss. s = ps @ t @ ss\<close>.
\<close>

theorem getFilteredDNSRecords_keeps:
  assumes "get_dns_records R zoneId type w = (Inr result, w')"
  shows "getFilteredDNSRecords R zoneId content type w =
           (Inr (filter (\<lambda>r. if type = ''TXT'' \<and> content = ''dkim''
                             then sublist ''dkim'' (rr_content r) \<or> sublist ''_domainkey'' (rr_name r)
                             else sublist content (rr_content r)) result),
            w', [GetDnsRecords zoneId type])"
  using assms
  by (simp add: getFilteredDNSRecords_def cloudflareRequest_def js_includes_sublist)

text \<open>
  On the test account: the record under \<^verbatim>\<open>_domainkey\<close> whose content has no literal
  \<^verbatim>\<open>dkim\<close> is kept, the record with neither is dropped.
\<close>

theorem getFilteredDNSRecords_keeps_witness:
  "getFilteredDNSRecords account ''z'' ''dkim'' ''TXT'' [] =
     (Inr [\<lparr>rr_id = ''1'', rr_type = ''TXT'', rr_name = ''mail._domainkey.example.com'',
             rr_content = ''v=DKIM1; p=abc''\<rparr>,
           \<lparr>rr_id = ''3'', rr_type = ''TXT'', rr_name = ''example.com'',
             rr_content = ''dkim-selector=x''\<rparr>],
      [], [GetDnsRecords ''z'' ''TXT''])"
proof -
  have "get_dns_records account ''z'' ''TXT'' [] =
     (Inr [\<lparr>rr_id = ''1'', rr_type = ''TXT'', rr_name = ''mail._domainkey.example.com'',
             rr_content = ''v=DKIM1; p=abc''\<rparr>,
           \<lparr>rr_id = ''2'', rr_type = ''TXT'', rr_name = ''example.com'',
             rr_content = ''v=spf1 ~all''\<rparr>,
           \<lparr>rr_id = ''3'', rr_type = ''TXT'', rr_name = ''example.com'',
             rr_content = ''dkim-selector=x''\<rparr>], [])"
    by (simp add: account_def)
  from getFilteredDNSRecords_keeps [OF this, of "''dkim''"]
  show ?thesis by (simp add: js_includes_sublist [symmetric])
qed

subsection \<open>Bulk provisioner\<close>

lemma normalized_idem: "normalized d (normalized d x) = normalized d x"
  by (simp add: normalized_def apex_def)

lemma insertDNSRecords_loop_results:
  "insertDNSRecords_loop R d z rs results h w =
     (results @ fst (insertDNSRecords_loop R d z rs [] h w), snd (insertDNSRecords_loop R d z rs [] h w))"
proof (induction rs arbitrary: results h w)
  case Nil
  then show ?case by simp
next
  case (Cons r rs)
  define h1 where "h1 = (if r_host (h r) = ''@'' \<or> r_host (h r) = [] then h(r := (h r)\<lparr>r_host := d\<rparr>) else h)"
  obtain res w1 t1 where ins: "insertDNSRecord R z (h1 r) w = (res, w1, t1)"
    by (cases "insertDNSRecord R z (h1 r) w") auto
  define entry where "entry = (case res of
       Inr result \<Rightarrow> \<lparr>o_success = True, o_domain = d,
                      o_record = Some (r_type (h1 r), r_host (h1 r), r_value (h1 r)), o_error = None\<rparr>
     | Inl error \<Rightarrow> \<lparr>o_success = False, o_domain = d,
                      o_record = Some (r_type (h1 r), r_host (h1 r), r_value (h1 r)),
                      o_error = Some (message error)\<rparr>)"
  have step: "insertDNSRecords_loop R d z (r # rs) acc h w =
      (case insertDNSRecords_loop R d z rs (acc @ [entry]) h1 w1 of
         (results', h2, w2, t2) \<Rightarrow> (results', h2, w2, t1 @ t2))" for acc
    using ins by (simp add: Let_def h1_def [symmetric] entry_def)
  show ?case
    using Cons.IH [of "results @ [entry]" h1 w1] Cons.IH [of "[entry]" h1 w1]
    by (simp add: step case_prod_beta del: insertDNSRecords_loop.simps)
qed




lemma getZoneId_trace:
  "snd (snd (getZoneId R d w)) = [GetZones \<lparr>q_name = Some d, q_page = None, q_per_page = None\<rparr>]"
  by (simp add: getZoneId_def cloudflareRequest_def Let_def split: prod.splits sum.splits list.splits)

lemma insertDNSRecords_unresolved:
  assumes "getZoneId R d w = (Inl e, w1, t1)"
  shows "insertDNSRecords R d rs h w =
           ([\<lparr>o_success = False, o_domain = d, o_record = None, o_error = Some (message e)\<rparr>], h, w1, t1)"
  using assms by (simp add: insertDNSRecords_def)


lemma createSame_loop_results:
  "createSame_loop R ds rs acc h w =
     (acc @ fst (createSame_loop R ds rs [] h w), snd (createSame_loop R ds rs [] h w))"
proof (induction ds arbitrary: acc h w)
  case Nil
  then show ?case by simp
next
  case (Cons d ds)
  obtain res1 h1 w1 t1 where ins: "insertDNSRecords R d rs h w = (res1, h1, w1, t1)"
    by (cases "insertDNSRecords R d rs h w") auto
  show ?case
    using Cons.IH [of "acc @ res1" h1 w1] Cons.IH [of res1 h1 w1]
    by (simp add: ins case_prod_beta)
qed

lemma createSame_loop_append:
  "createSame_loop R (xs @ ys) rs acc h w =
     (case createSame_loop R xs rs acc h w of
        (r1, h1, w1, t1) \<Rightarrow>
          (case createSame_loop R ys rs r1 h1 w1 of
             (r2, h2, w2, t2) \<Rightarrow> (r2, h2, w2, t1 @ t2)))"
proof (induction xs arbitrary: acc h w)
  case Nil
  then show ?case by (simp add: case_prod_beta)
next
  case (Cons d xs)
  show ?case by (simp add: case_prod_beta Cons.IH)
qed



lemmas run_simps = createSameDNSRecordsForManyDomains_def insertDNSRecords_def getZoneId_def
  cloudflareRequest_def insertDNSRecord_def formattedRecord_def account_def zone_named_def
  gwsResellerDnsRecords_def Let_def domains_def

text \<open>
  Claim C1 (the code departs from it). The claim: for every domain of a bulk creation, a
  record whose host is empty or \<^verbatim>\<open>"@"\<close> is submitted with that domain's name as host.
  \<^verbatim>\<open>createSameDNSRecordsForManyDomains\<close>, run on the program's own \<^verbatim>\<open>domains\<close> and
  \<^verbatim>\<open>gwsResellerDnsRecords\<close> against an account that accepts every record, submits the two
  apex records of the second domain, to the second domain's zone, with the first domain's
  name as host.
\<close>

theorem createSame_submits_first_domain_name:
  "submitted (snd (snd (snd (createSameDNSRecordsForManyDomains account domains [0, 1, 2]
       gwsResellerDnsRecords [])))) =
     [(''id-choose-nnn-capital.com'', ''choose-nnn-capital.com''),
      (''id-choose-nnn-capital.com'', ''_dmarc''),
      (''id-choose-nnn-capital.com'', ''choose-nnn-capital.com''),
      (''id-choose-nnn-investing.com'', ''choose-nnn-capital.com''),
      (''id-choose-nnn-investing.com'', ''_dmarc''),
      (''id-choose-nnn-investing.com'', ''choose-nnn-capital.com'')]"
  by (simp add: run_simps)





text \<open>
  Claim C4. Let a batch be \<open>ds1 @ d # ds2\<close>, where the zone lookup for \<open>d\<close> fails in the
  provider state reached after \<open>ds1\<close> and leaves that state as it was. Then the run emits,
  between the results of \<open>ds1\<close> and those of \<open>ds2\<close>, exactly one failure result for \<open>d\<close>
  (with no record in it); the only request sent for \<open>d\<close> is the lookup, so none of its
  records is attempted; and results, store, provider state and every other request are
  those of the batch \<open>ds1 @ ds2\<close> without \<open>d\<close>.
\<close>

theorem createSame_isolates_unresolved_domain:
  assumes before: "createSameDNSRecordsForManyDomains R ds1 records h w = (res1, h1, w1, t1)"
    and lookup: "getZoneId R d w1 = (Inl e, w1, tz)"
    and after: "createSameDNSRecordsForManyDomains R ds2 records h1 w1 = (res2, h2, w2, t2)"
  shows "createSameDNSRecordsForManyDomains R (ds1 @ d # ds2) records h w =
           (res1 @ [\<lparr>o_success = False, o_domain = d, o_record = None, o_error = Some (message e)\<rparr>] @ res2,
            h2, w2,
            t1 @ [GetZones \<lparr>q_name = Some d, q_page = None, q_per_page = None\<rparr>] @ t2)
         \<and> createSameDNSRecordsForManyDomains R (ds1 @ ds2) records h w = (res1 @ res2, h2, w2, t1 @ t2)"
proof -
  have tz: "tz = [GetZones \<lparr>q_name = Some d, q_page = None, q_per_page = None\<rparr>]"
    using getZoneId_trace [of R d w1] lookup by simp
  have acc: "createSame_loop R ds2 records acc h1 w1 = (acc @ res2, h2, w2, t2)" for acc
    using after createSame_loop_results [of R ds2 records acc h1 w1]
    by (simp add: createSameDNSRecordsForManyDomains_def)
  have "createSameDNSRecordsForManyDomains R (ds1 @ d # ds2) records h w =
          (case createSame_loop R (d # ds2) records res1 h1 w1 of
             (r2, h2, w2, t2) \<Rightarrow> (r2, h2, w2, t1 @ t2))"
    using before by (simp add: createSameDNSRecordsForManyDomains_def createSame_loop_append)
  moreover have "createSame_loop R (d # ds2) records res1 h1 w1 =
      (res1 @ [\<lparr>o_success = False, o_domain = d, o_record = None, o_error = Some (message e)\<rparr>] @ res2,
       h2, w2, tz @ t2)"
    by (simp add: insertDNSRecords_unresolved [OF lookup] acc)
  moreover have "createSameDNSRecordsForManyDomains R (ds1 @ ds2) records h w = (res1 @ res2, h2, w2, t1 @ t2)"
    using before by (simp add: createSameDNSRecordsForManyDomains_def createSame_loop_append acc)
  ultimately show ?thesis by (simp add: tz)
qed

theorem createSame_isolates_unresolved_domain_witness:
  "fst (createSameDNSRecordsForManyDomains account [''a.com'', ''down.example'', ''b.com''] [1, 2]
          gwsResellerDnsRecords []) =
     [\<lparr>o_success = True, o_domain = ''a.com'',
        o_record = Some (''TXT'', ''_dmarc'', ''v=DMARC1; p=none''), o_error = None\<rparr>,
      \<lparr>o_success = True, o_domain = ''a.com'',
        o_record = Some (''TXT'', ''a.com'', ''v=spf1 include:_spf.google.com ~all''), o_error = None\<rparr>,
      \<lparr>o_success = False, o_domain = ''down.example'', o_record = None,
        o_error = Some ''connect ETIMEDOUT''\<rparr>,
      \<lparr>o_success = True, o_domain = ''b.com'',
        o_record = Some (''TXT'', ''_dmarc'', ''v=DMARC1; p=none''), o_error = None\<rparr>,
      \<lparr>o_success = True, o_domain = ''b.com'',
        o_record = Some (''TXT'', ''a.com'', ''v=spf1 include:_spf.google.com ~all''), o_error = None\<rparr>]
   \<and> fst (createSameDNSRecordsForManyDomains account [''a.com'', ''b.com''] [1, 2]
          gwsResellerDnsRecords []) =
     [\<lparr>o_success = True, o_domain = ''a.com'',
        o_record = Some (''TXT'', ''_dmarc'', ''v=DMARC1; p=none''), o_error = None\<rparr>,
      \<lparr>o_success = True, o_domain = ''a.com'',
        o_record = Some (''TXT'', ''a.com'', ''v=spf1 include:_spf.google.com ~all''), o_error = None\<rparr>,
      \<lparr>o_success = True, o_domain = ''b.com'',
        o_record = Some (''TXT'', ''_dmarc'', ''v=DMARC1; p=none''), o_error = None\<rparr>,
      \<lparr>o_success = True, o_domain = ''b.com'',
        o_record = Some (''TXT'', ''a.com'', ''v=spf1 include:_spf.google.com ~all''), o_error = None\<rparr>]"
proof -
  obtain res1 h1 w1 t1 where before:
    "createSameDNSRecordsForManyDomains account [''a.com''] [1, 2] gwsResellerDnsRecords [] = (res1, h1, w1, t1)"
    by (cases "createSameDNSRecordsForManyDomains account [''a.com''] [1, 2] gwsResellerDnsRecords []") auto
  have lookup: "getZoneId account ''down.example'' w1 =
      (Inl (Error ''connect ETIMEDOUT''), w1,
       [GetZones \<lparr>q_name = Some ''down.example'', q_page = None, q_per_page = None\<rparr>])"
    by (simp add: getZoneId_def cloudflareRequest_def account_def zone_named_def)
  obtain res2 h2 w2 t2 where after:
    "createSameDNSRecordsForManyDomains account [''b.com''] [1, 2] h1 w1 = (res2, h2, w2, t2)"
    by (cases "createSameDNSRecordsForManyDomains account [''b.com''] [1, 2] h1 w1") auto
  note th = createSame_isolates_unresolved_domain [OF before lookup after]
  have r1: "res1 = [\<lparr>o_success = True, o_domain = ''a.com'',
        o_record = Some (''TXT'', ''_dmarc'', ''v=DMARC1; p=none''), o_error = None\<rparr>,
      \<lparr>o_success = True, o_domain = ''a.com'',
        o_record = Some (''TXT'', ''a.com'', ''v=spf1 include:_spf.google.com ~all''), o_error = None\<rparr>]"
    and h1: "h1 1 = gwsResellerDnsRecords 1" "h1 2 = (gwsResellerDnsRecords 2)\<lparr>r_host := ''a.com''\<rparr>"
    using before by (auto simp: run_simps)
  have r2: "res2 = [\<lparr>o_success = True, o_domain = ''b.com'',
        o_record = Some (''TXT'', ''_dmarc'', ''v=DMARC1; p=none''), o_error = None\<rparr>,
      \<lparr>o_success = True, o_domain = ''b.com'',
        o_record = Some (''TXT'', ''a.com'', ''v=spf1 include:_spf.google.com ~all''), o_error = None\<rparr>]"
    using after h1 by (auto simp: createSameDNSRecordsForManyDomains_def insertDNSRecords_def getZoneId_def
  cloudflareRequest_def insertDNSRecord_def formattedRecord_def account_def Let_def gwsResellerDnsRecords_def zone_named_def)
  show ?thesis
    using th by (simp add: r1 r2)
qed

subsection \<open>Paginated fetcher\<close>

lemma ceil_le: "0 < P \<Longrightarrow> N \<le> p * P \<Longrightarrow> (N + P - 1) div P \<le> (p::nat)"
proof -
  assume P: "0 < P" and le: "N \<le> p * P"
  have "N + P - 1 < (p + 1) * P" using P le by simp
  then have "(N + P - 1) div P < p + 1" using P by (simp add: less_mult_imp_div_less)
  then show ?thesis by simp
qed

lemma ceil_gt: "0 < P \<Longrightarrow> p * P < N \<Longrightarrow> Suc p \<le> (N + P - 1) div (P::nat)"
proof -
  assume P: "0 < P" and lt: "p * P < N"
  have "Suc p * P \<le> N + P - 1" using P lt by simp
  then have "(Suc p * P) div P \<le> (N + P - 1) div P" by (rule div_le_mono)
  then show ?thesis using P by simp
qed

lemma paged_listing_get_zones:
  "get_zones (paged_listing zones P) (getDomains_queryParams c p) w =
     (Inr \<lparr>zp_result = take P (drop ((p - 1) * P) zones),
           zp_result_info = \<lparr>ri_page = p, ri_per_page = P, ri_total_count = length zones\<rparr>\<rparr>, w)"
  by (simp add: paged_listing_def getDomains_queryParams_def)

lemma getDomains_pages_from:
  assumes "0 < P" and "0 < p"
  shows "getDomains_pages (paged_listing zones P) c acc p w sent =
     Some (Inr (acc @ drop ((p - 1) * P) zones), w,
           sent @ map (\<lambda>p. GetZones (getDomains_queryParams c p))
                    [p ..< Suc (max p ((length zones + P - 1) div P))])"
  using assms(2)
proof (induction "length zones - p * P" arbitrary: p acc sent rule: less_induct)
  case less
  show ?case
  proof (cases "length zones \<le> p * P")
    case True
    have k: "max p ((length zones + P - 1) div P) = p"
      using ceil_le [OF assms(1) True] by simp
    have "length zones - (p - 1) * P \<le> P"
      using True less.prems by (cases p) (simp_all)
    then have all: "take P (drop ((p - 1) * P) zones) = drop ((p - 1) * P) zones"
      by simp
    show ?thesis
      using True all k
      by (subst getDomains_pages.simps)
         (simp add: paged_listing_get_zones cloudflareRequest_def)
  next
    case False
    then have lt: "p * P < length zones" by simp
    have k: "max p ((length zones + P - 1) div P) = max (Suc p) ((length zones + P - 1) div P)"
      using ceil_gt [OF assms(1) lt] by simp
    have smaller: "length zones - Suc p * P < length zones - p * P"
      using lt assms(1) by simp
    have next_page: "getDomains_pages (paged_listing zones P) c
          (acc @ take P (drop ((p - 1) * P) zones)) (Suc p) w
          (sent @ [GetZones (getDomains_queryParams c p)]) =
        Some (Inr ((acc @ take P (drop ((p - 1) * P) zones)) @ drop ((Suc p - 1) * P) zones), w,
           (sent @ [GetZones (getDomains_queryParams c p)]) @
             map (\<lambda>p. GetZones (getDomains_queryParams c p))
               [Suc p ..< Suc (max (Suc p) ((length zones + P - 1) div P))])"
      by (rule less.hyps [OF smaller]) simp
    have pieces: "take P (drop ((p - 1) * P) zones) @ drop (p * P) zones = drop ((p - 1) * P) zones"
    proof -
      have eq: "p * P = P + (p - 1) * P" using less.prems by (cases p) simp_all
      have "take P (drop ((p - 1) * P) zones) @ drop P (drop ((p - 1) * P) zones) =
              drop ((p - 1) * P) zones"
        by (rule append_take_drop_id)
      then show ?thesis by (simp only: drop_drop eq [symmetric])
    qed
    have range: "[p ..< Suc (max (Suc p) ((length zones + P - 1) div P))] =
        p # [Suc p ..< Suc (max (Suc p) ((length zones + P - 1) div P))]"
      by (simp add: upt_rec)
    show ?thesis
      using False next_page k pieces range
      by (subst getDomains_pages.simps)
         (simp add: paged_listing_get_zones cloudflareRequest_def del: upt_Suc)
  qed
qed

text \<open>
  Claim C5 (amended). For a listing of \<open>N\<close> items served in pages of \<open>P > 0\<close> items, the
  page loop of \<^verbatim>\<open>getDomains\<close>, started at page 1 with nothing accumulated, terminates,
  returns all \<open>N\<close> items in the listing's order, and has sent exactly the requests for
  the pages \<open>1, ..., k\<close> in this order, where \<open>k = max 1 (ceil (N / P))\<close>: one request for
  an empty listing, \<open>ceil (N / P)\<close> otherwise.
\<close>

theorem getDomains_pages_paged_listing:
  assumes "0 < P"
  shows "getDomains_pages (paged_listing zones P) c [] 1 w [] =
     Some (Inr zones, w,
           map (\<lambda>p. GetZones (getDomains_queryParams c p))
             [1 ..< Suc (max 1 ((length zones + P - 1) div P))])"
  using getDomains_pages_from [OF assms, of 1 zones c "[]" w "[]"] by simp


theorem getDomains_pages_paged_listing_witness:
  "getDomains_pages
     (paged_listing (map zone_named [''a.com'', ''b.com'', ''c.com'', ''d.com'', ''e.com'']) 2)
     None [] 1 () [] =
   Some (Inr (map zone_named [''a.com'', ''b.com'', ''c.com'', ''d.com'', ''e.com'']), (),
         [GetZones \<lparr>q_name = None, q_page = Some 1, q_per_page = Some 50\<rparr>,
          GetZones \<lparr>q_name = None, q_page = Some 2, q_per_page = Some 50\<rparr>,
          GetZones \<lparr>q_name = None, q_page = Some 3, q_per_page = Some 50\<rparr>])"
proof -
  have P: "(0::nat) < 2" by simp
  have pages: "[1 ..< Suc (max 1 ((length (map zone_named [''a.com'', ''b.com'', ''c.com'', ''d.com'',
       ''e.com'']) + 2 - 1) div 2))] = [1, 2, 3]"
    by (simp add: upt_rec)
  show ?thesis
    using getDomains_pages_paged_listing [OF P,
        of "map zone_named [''a.com'', ''b.com'', ''c.com'', ''d.com'', ''e.com'']" None "()"]
    unfolding pages by (simp add: getDomains_queryParams_def)
qed

text \<open>
  Claim C5 as stated fails on the empty listing: the loop asks for page 1 before it knows
  the total, so it sends one request where \<open>ceil (0 / 50) = 0\<close>.
\<close>

theorem getDomains_pages_empty_listing:
  "getDomains_pages (paged_listing [] 50) None [] 1 () [] =
     Some (Inr [], (), [GetZones \<lparr>q_name = None, q_page = Some 1, q_per_page = Some 50\<rparr>])
   \<and> length [GetZones \<lparr>q_name = None, q_page = Some 1, q_per_page = Some 50\<rparr>]
        \<noteq> (length ([] :: zone list) + 50 - 1) div 50"
  by (subst getDomains_pages.simps)
     (simp add: paged_listing_def offline_def cloudflareRequest_def getDomains_queryParams_def)

subsection \<open>Redirect replacer\<close>

lemma find_first:
  "(\<forall>x\<in>set before. \<not> P x) \<Longrightarrow> P y \<Longrightarrow> find P (before @ y # after) = Some y"
  by (induction before) simp_all

text \<open>
  Claim C6 (amended). Let the domain resolve to a zone, let the page rules be fetched, let
  \<open>rule\<close> be the first fetched rule with a \<^verbatim>\<open>forwarding_url\<close> action, and let the delete
  call for its id succeed. Then \<^verbatim>\<open>changeDomainRedirect\<close> sends, after the zone lookup,
  exactly: the fetch of the zone's page rules, the delete of \<open>rule\<close> by its id, the create
  of the new forwarding rule, in this order, and nothing after. If the create call fails
  (the request fails, or the provider reports no success) the operation throws; the trace
  ends with that create call, so the deleted rule is not created again, and the provider
  is left in the state \<open>w4\<close> in which the failed create call left it.

  What is left in the zone is stated for any reading \<open>rules_of\<close> of the zone's page rules
  from the provider state: if the fetch returned the rules of the zone, the delete call
  removed the rules with the id of \<open>rule\<close>, the failed create call changed no rule, and
  \<open>rule\<close> was the only forwarding rule of the zone (none among the rules fetched after
  it), then the operation throws and the zone is left with the other fetched rules, none
  of which is a forwarding rule.
\<close>

theorem changeDomainRedirect_replaces_forwarding_rule:
  assumes zone: "getZoneId R domain w = (Inr zoneId, w1, t1)"
    and fetched: "get_pagerules R zoneId w1 = (Inr reply, w2)" "pg_success reply"
    and rules: "pg_result reply = before @ rule # after"
    and forwarding: "''forwarding_url'' \<in> set (pr_actions rule)"
    and first: "\<forall>r\<in>set before. ''forwarding_url'' \<notin> set (pr_actions r)"
    and deleted: "delete_pagerule R zoneId (pr_id rule) w2 = (Inr ack, w3)"
    and created: "post_pagerule R zoneId (newRule domain newRedirectUrl) w3 = (answer, w4)"
  shows "changeDomainRedirect R domain newRedirectUrl w =
           ((case answer of
               Inl errorDetails \<Rightarrow> Inl (ReferenceError ''zoneId is not defined'')
             | Inr created_reply \<Rightarrow>
                 if m_success created_reply then Inr ()
                 else Inl (ReferenceError ''zoneId is not defined'')),
            w4,
            [GetZones \<lparr>q_name = Some domain, q_page = None, q_per_page = None\<rparr>,
             GetPageRules zoneId,
             DeletePageRule zoneId (pr_id rule),
             PostPageRule zoneId (newRule domain newRedirectUrl)])
       \<and> ((case answer of Inl errorDetails \<Rightarrow> True | Inr created_reply \<Rightarrow> \<not> m_success created_reply)
            \<and> rules_of w2 = pg_result reply
            \<and> rules_of w3 = filter (\<lambda>r. pr_id r \<noteq> pr_id rule) (rules_of w2)
            \<and> rules_of w4 = rules_of w3
            \<and> (\<forall>r\<in>set after. ''forwarding_url'' \<notin> set (pr_actions r))
          \<longrightarrow> fst (changeDomainRedirect R domain newRedirectUrl w) =
                Inl (ReferenceError ''zoneId is not defined'')
              \<and> rules_of (fst (snd (changeDomainRedirect R domain newRedirectUrl w))) =
                  filter (\<lambda>r. pr_id r \<noteq> pr_id rule) (before @ after)
              \<and> (\<forall>r\<in>set (rules_of (fst (snd (changeDomainRedirect R domain newRedirectUrl w)))).
                    ''forwarding_url'' \<notin> set (pr_actions r)))"
proof -
  have t1: "t1 = [GetZones \<lparr>q_name = Some domain, q_page = None, q_per_page = None\<rparr>]"
    using getZoneId_trace [of R domain w] zone by simp
  have rules': "getPageRules R zoneId w1 = (Inr (before @ rule # after), w2, [GetPageRules zoneId])"
    using fetched rules by (simp add: getPageRules_def cloudflareRequest_def)
  have found: "find (\<lambda>rule. list_ex (\<lambda>action. action = ''forwarding_url'') (pr_actions rule))
                 (before @ rule # after) = Some rule"
    using forwarding first by (intro find_first) (auto simp: list_ex_iff)
  have run: "changeDomainRedirect R domain newRedirectUrl w =
           ((case answer of
               Inl errorDetails \<Rightarrow> Inl (ReferenceError ''zoneId is not defined'')
             | Inr created_reply \<Rightarrow>
                 if m_success created_reply then Inr ()
                 else Inl (ReferenceError ''zoneId is not defined'')),
            w4,
            [GetZones \<lparr>q_name = Some domain, q_page = None, q_per_page = None\<rparr>,
             GetPageRules zoneId,
             DeletePageRule zoneId (pr_id rule),
             PostPageRule zoneId (newRule domain newRedirectUrl)])"
    using zone rules' found deleted created t1
    by (cases answer)
       (simp_all add: changeDomainRedirect_def changeDomainRedirect_try_def cloudflareRequest_def)
  have left: "fst (changeDomainRedirect R domain newRedirectUrl w) =
                Inl (ReferenceError ''zoneId is not defined'')
              \<and> rules_of (fst (snd (changeDomainRedirect R domain newRedirectUrl w))) =
                  filter (\<lambda>r. pr_id r \<noteq> pr_id rule) (before @ after)
              \<and> (\<forall>r\<in>set (rules_of (fst (snd (changeDomainRedirect R domain newRedirectUrl w)))).
                    ''forwarding_url'' \<notin> set (pr_actions r))"
    if failed: "case answer of Inl errorDetails \<Rightarrow> True | Inr created_reply \<Rightarrow> \<not> m_success created_reply"
      and seen: "rules_of w2 = pg_result reply"
      and removed: "rules_of w3 = filter (\<lambda>r. pr_id r \<noteq> pr_id rule) (rules_of w2)"
      and kept: "rules_of w4 = rules_of w3"
      and only: "\<forall>r\<in>set after. ''forwarding_url'' \<notin> set (pr_actions r)"
  proof -
    have outcome: "fst (changeDomainRedirect R domain newRedirectUrl w) =
        Inl (ReferenceError ''zoneId is not defined'')"
      using failed by (cases answer) (simp_all add: run)
    have state: "fst (snd (changeDomainRedirect R domain newRedirectUrl w)) = w4"
      by (simp add: run)
    have remaining: "rules_of w4 = filter (\<lambda>r. pr_id r \<noteq> pr_id rule) (before @ after)"
      by (simp add: kept removed seen rules)
    have "\<forall>r\<in>set (rules_of w4). ''forwarding_url'' \<notin> set (pr_actions r)"
      using first only by (auto simp: remaining)
    then show ?thesis
      using outcome remaining by (simp add: state)
  qed
  show ?thesis
    using run left by blast
qed

text \<open>
  On the test account, for a zone with one forwarding rule and a create call that is
  rejected: the zone is left with its other rule only, which is not a forwarding rule.
\<close>

theorem changeDomainRedirect_replaces_forwarding_rule_witness:
  "changeDomainRedirect account ''a.com'' []
     [\<lparr>pr_id = ''r1'', pr_actions = [''always_use_https'']\<rparr>,
      \<lparr>pr_id = ''r2'', pr_actions = [''forwarding_url'']\<rparr>] =
   (Inl (ReferenceError ''zoneId is not defined''),
    [\<lparr>pr_id = ''r1'', pr_actions = [''always_use_https'']\<rparr>],
    [GetZones \<lparr>q_name = Some ''a.com'', q_page = None, q_per_page = None\<rparr>,
     GetPageRules ''id-a.com'',
     DeletePageRule ''id-a.com'' ''r2'',
     PostPageRule ''id-a.com''
       \<lparr>nr_target_value = ''a.com/*'', nr_forwarding_url = [], nr_status_code = 301,
        nr_priority = 1, nr_status = ''active''\<rparr>])
   \<and> list_all (\<lambda>r. ''forwarding_url'' \<notin> set (pr_actions r))
        (fst (snd (changeDomainRedirect account ''a.com'' []
           [\<lparr>pr_id = ''r1'', pr_actions = [''always_use_https'']\<rparr>,
            \<lparr>pr_id = ''r2'', pr_actions = [''forwarding_url'']\<rparr>])))"
proof -
  let ?w = "[\<lparr>pr_id = ''r1'', pr_actions = [''always_use_https'']\<rparr>,
             \<lparr>pr_id = ''r2'', pr_actions = [''forwarding_url'']\<rparr>]"
  let ?w' = "[\<lparr>pr_id = ''r1'', pr_actions = [''always_use_https'']\<rparr>]"
  have zone: "getZoneId account ''a.com'' ?w =
      (Inr ''id-a.com'', ?w, [GetZones \<lparr>q_name = Some ''a.com'', q_page = None, q_per_page = None\<rparr>])"
    by (simp add: getZoneId_def cloudflareRequest_def account_def zone_named_def)
  have fetched: "get_pagerules account ''id-a.com'' ?w = (Inr \<lparr>pg_success = True, pg_result = ?w\<rparr>, ?w)"
    "pg_success \<lparr>pg_success = True, pg_result = ?w\<rparr>"
    by (simp_all add: account_def)
  have rules: "pg_result \<lparr>pg_success = True, pg_result = ?w\<rparr> =
      [\<lparr>pr_id = ''r1'', pr_actions = [''always_use_https'']\<rparr>]
        @ \<lparr>pr_id = ''r2'', pr_actions = [''forwarding_url'']\<rparr> # []"
    by simp
  have forwarding: "''forwarding_url'' \<in> set (pr_actions \<lparr>pr_id = ''r2'', pr_actions = [''forwarding_url'']\<rparr>)"
    by simp
  have first: "\<forall>r\<in>set [\<lparr>pr_id = ''r1'', pr_actions = [''always_use_https'']\<rparr>].
      ''forwarding_url'' \<notin> set (pr_actions r)"
    by simp
  have deleted: "delete_pagerule account ''id-a.com''
       (pr_id \<lparr>pr_id = ''r2'', pr_actions = [''forwarding_url'']\<rparr>) ?w =
       (Inr \<lparr>m_success = True, m_result = ''{}''\<rparr>, ?w')"
    by (simp add: account_def)
  have created: "post_pagerule account ''id-a.com'' (newRule ''a.com'' []) ?w' = (Inl ''url is required'', ?w')"
    by (simp add: account_def newRule_def)
  note th = changeDomainRedirect_replaces_forwarding_rule [OF zone fetched rules forwarding first deleted created, of "\<lambda>w. w"]
  have run: "changeDomainRedirect account ''a.com'' [] ?w =
     (Inl (ReferenceError ''zoneId is not defined''), ?w',
      [GetZones \<lparr>q_name = Some ''a.com'', q_page = None, q_per_page = None\<rparr>,
       GetPageRules ''id-a.com'',
       DeletePageRule ''id-a.com'' ''r2'',
       PostPageRule ''id-a.com''
         \<lparr>nr_target_value = ''a.com/*'', nr_forwarding_url = [], nr_status_code = 301,
          nr_priority = 1, nr_status = ''active''\<rparr>])"
    using th [THEN conjunct1] by (simp add: newRule_def endsWith_def)
  have "\<forall>r\<in>set (fst (snd (changeDomainRedirect account ''a.com'' [] ?w))).
          ''forwarding_url'' \<notin> set (pr_actions r)"
    by (rule th [THEN conjunct2, rule_format, THEN conjunct2, THEN conjunct2]) simp
  then have "list_all (\<lambda>r. ''forwarding_url'' \<notin> set (pr_actions r))
        (fst (snd (changeDomainRedirect account ''a.com'' [] ?w)))"
    by (simp only: list_all_iff)
  with run show ?thesis by (rule conjI)
qed

text \<open>
  Claim C6 as stated fails for a zone with two forwarding rules: only the first is
  deleted, and when the create call is rejected the zone is left with the second.
\<close>

theorem changeDomainRedirect_leaves_second_forwarding_rule:
  "changeDomainRedirect account ''a.com'' []
     [\<lparr>pr_id = ''r1'', pr_actions = [''forwarding_url'']\<rparr>,
      \<lparr>pr_id = ''r2'', pr_actions = [''forwarding_url'']\<rparr>] =
   (Inl (ReferenceError ''zoneId is not defined''),
    [\<lparr>pr_id = ''r2'', pr_actions = [''forwarding_url'']\<rparr>],
    [GetZones \<lparr>q_name = Some ''a.com'', q_page = None, q_per_page = None\<rparr>,
     GetPageRules ''id-a.com'',
     DeletePageRule ''id-a.com'' ''r1'',
     PostPageRule ''id-a.com''
       \<lparr>nr_target_value = ''a.com/*'', nr_forwarding_url = [], nr_status_code = 301,
        nr_priority = 1, nr_status = ''active''\<rparr>])"
  by (simp add: changeDomainRedirect_def changeDomainRedirect_try_def getPageRules_def getZoneId_def
      cloudflareRequest_def account_def zone_named_def newRule_def endsWith_def)

subsection \<open>Bulk operations and their results\<close>

lemma pauseManyZones_loop_domains:
  "map o_domain (fst (pauseManyZones_loop R ds pause acc w)) = map o_domain acc @ ds"
proof (induction ds arbitrary: acc w)
  case Nil
  then show ?case by simp
next
  case (Cons d ds)
  show ?case
    by (simp add: case_prod_beta Let_def Cons.IH split: sum.splits)
qed

lemma changeManyDomainRedirects_returns:
  "fst (changeManyDomainRedirects R ds url w) = Undefined"
  by (induction ds arbitrary: w) (simp_all add: case_prod_beta)

lemma pauseZone_success:
  "fst (pauseZone R d pause w) = Inr reply \<Longrightarrow> m_success reply"
  by (auto simp: pauseZone_def split: prod.splits sum.splits if_splits)

lemma pauseManyZones_loop_entries:
  assumes "\<forall>r\<in>set acc. o_record r = None \<and> (o_success r \<longleftrightarrow> o_error r = None)"
  shows "\<forall>r\<in>set (fst (pauseManyZones_loop R ds pause acc w)).
           o_record r = None \<and> (o_success r \<longleftrightarrow> o_error r = None)"
  using assms
proof (induction ds arbitrary: acc w)
  case Nil
  then show ?case by simp
next
  case (Cons d ds)
  obtain res w1 t1 where pz: "pauseZone R d pause w = (res, w1, t1)"
    by (cases "pauseZone R d pause w") auto
  define entry where "entry = (case res of
       Inr result \<Rightarrow> \<lparr>o_success = m_success result, o_domain = d, o_record = None, o_error = None\<rparr>
     | Inl error \<Rightarrow> \<lparr>o_success = False, o_domain = d, o_record = None,
                      o_error = Some (message error)\<rparr>)"
  have entry: "o_record entry = None \<and> (o_success entry \<longleftrightarrow> o_error entry = None)"
    using pauseZone_success [of R d pause w] pz by (cases res) (simp_all add: entry_def)
  have "\<forall>r\<in>set (fst (pauseManyZones_loop R ds pause (acc @ [entry]) w1)).
           o_record r = None \<and> (o_success r \<longleftrightarrow> o_error r = None)"
    by (rule Cons.IH) (use Cons.prems entry in auto)
  then show ?case
    by (simp add: pz case_prod_beta Let_def entry_def)
qed

lemma pauseManyZones_loop_results:
  "pauseManyZones_loop R ds pause acc w =
     (acc @ fst (pauseManyZones_loop R ds pause [] w), snd (pauseManyZones_loop R ds pause [] w))"
proof (induction ds arbitrary: acc w)
  case Nil
  then show ?case by simp
next
  case (Cons d ds)
  obtain res w1 t1 where pz: "pauseZone R d pause w = (res, w1, t1)"
    by (cases "pauseZone R d pause w") auto
  define entry where "entry = (case res of
       Inr result \<Rightarrow> \<lparr>o_success = m_success result, o_domain = d, o_record = None, o_error = None\<rparr>
     | Inl error \<Rightarrow> \<lparr>o_success = False, o_domain = d, o_record = None,
                      o_error = Some (message error)\<rparr>)"
  have step: "pauseManyZones_loop R (d # ds) pause acc w =
      (case pauseManyZones_loop R ds pause (acc @ [entry]) w1 of
         (results', w2, t2) \<Rightarrow> (results', w2, t1 @ t2))" for acc
    by (simp add: pz Let_def entry_def)
  show ?case
    using Cons.IH [of "acc @ [entry]" w1] Cons.IH [of "[entry]" w1]
    by (simp add: step case_prod_beta del: pauseManyZones_loop.simps)
qed

lemma pauseManyZones_step:
  assumes pz: "pauseZone R d pause w = (res, w1, t1)"
    and rest: "pauseManyZones R ds pause w1 = (Results rs, w2, t2)"
  shows "pauseManyZones R (d # ds) pause w =
           (Results ((case res of
                        Inr reply \<Rightarrow> \<lparr>o_success = True, o_domain = d, o_record = None, o_error = None\<rparr>
                      | Inl error \<Rightarrow> \<lparr>o_success = False, o_domain = d, o_record = None,
                                      o_error = Some (message error)\<rparr>) # rs),
            w2, t1 @ t2)"
proof -
  have ok: "m_success reply" if "res = Inr reply" for reply
    using pauseZone_success [of R d pause w reply] pz that by simp
  have rest': "pauseManyZones_loop R ds pause [] w1 = (rs, w2, t2)"
    using rest by (simp add: pauseManyZones_def case_prod_beta prod_eq_iff)
  show ?thesis
    using ok
    by (cases res)
       (simp_all add: pauseManyZones_def pz Let_def pauseManyZones_loop_results [of R ds pause "[_]" w1] rest')
qed

text \<open>
  Claim C3 (amended). \<^verbatim>\<open>pauseManyZones\<close> returns a list with exactly one result per
  domain, in the order of the domains, and each entry is what \<^verbatim>\<open>pauseZone\<close> answered for
  that domain in the provider state the run had reached: for no domain the empty list and
  no request; for \<open>d # ds\<close>, where \<^verbatim>\<open>pauseZone\<close> on \<open>d\<close> returns \<open>res\<close>, leaves the state \<open>w1\<close>
  and sends \<open>t1\<close>, first the entry for \<open>d\<close> (a success when \<open>res\<close> is a reply, a failure
  with the message of the error when \<open>res\<close> is an error), then the entries of the run on
  \<open>ds\<close> from \<open>w1\<close>, the requests being \<open>t1\<close> followed by those of that run. So a failed item
  is in the list, with \<open>success = false\<close> and its error message (a result is a success
  exactly when it carries no error). \<^verbatim>\<open>changeManyDomainRedirects\<close> calls
  \<^verbatim>\<open>changeDomainRedirect\<close> once per domain, in order, each from the state the one before
  left, and returns no list at all (\<^verbatim>\<open>undefined\<close>), whatever the calls return: its
  failures are only logged. Neither raises: every per-item error is caught inside the
  loop, so the model has no error result for them.
\<close>

theorem bulk_operations_return:
  "(\<forall>w. pauseManyZones R [] pause w = (Results [], w, []))
   \<and> (\<forall>d ds w res w1 t1 rs w2 t2.
         pauseZone R d pause w = (res, w1, t1) \<and> pauseManyZones R ds pause w1 = (Results rs, w2, t2) \<longrightarrow>
         pauseManyZones R (d # ds) pause w =
           (Results ((case res of
                        Inr reply \<Rightarrow> \<lparr>o_success = True, o_domain = d, o_record = None, o_error = None\<rparr>
                      | Inl error \<Rightarrow> \<lparr>o_success = False, o_domain = d, o_record = None,
                                      o_error = Some (message error)\<rparr>) # rs),
            w2, t1 @ t2))
   \<and> (\<forall>ds w. \<exists>results. fst (pauseManyZones R ds pause w) = Results results
         \<and> map o_domain results = ds
         \<and> (\<forall>r\<in>set results. o_record r = None \<and> (o_success r \<longleftrightarrow> o_error r = None)))
   \<and> (\<forall>w. changeManyDomainRedirects R [] url w = (Undefined, w, []))
   \<and> (\<forall>d ds w res w1 t1 ret w2 t2.
         changeDomainRedirect R d url w = (res, w1, t1)
           \<and> changeManyDomainRedirects R ds url w1 = (ret, w2, t2) \<longrightarrow>
         changeManyDomainRedirects R (d # ds) url w = (Undefined, w2, t1 @ t2))
   \<and> (\<forall>ds w. fst (changeManyDomainRedirects R ds url w) = Undefined)"
proof -
  have a: "\<forall>w. pauseManyZones R [] pause w = (Results [], w, [])"
    by (simp add: pauseManyZones_def)
  have b: "\<forall>d ds w res w1 t1 rs w2 t2.
         pauseZone R d pause w = (res, w1, t1) \<and> pauseManyZones R ds pause w1 = (Results rs, w2, t2) \<longrightarrow>
         pauseManyZones R (d # ds) pause w =
           (Results ((case res of
                        Inr reply \<Rightarrow> \<lparr>o_success = True, o_domain = d, o_record = None, o_error = None\<rparr>
                      | Inl error \<Rightarrow> \<lparr>o_success = False, o_domain = d, o_record = None,
                                      o_error = Some (message error)\<rparr>) # rs),
            w2, t1 @ t2)"
    by (intro allI impI, elim conjE, rule pauseManyZones_step)
  have c: "\<forall>ds w. \<exists>results. fst (pauseManyZones R ds pause w) = Results results
         \<and> map o_domain results = ds
         \<and> (\<forall>r\<in>set results. o_record r = None \<and> (o_success r \<longleftrightarrow> o_error r = None))"
  proof (intro allI)
    fix ds w
    show "\<exists>results. fst (pauseManyZones R ds pause w) = Results results
         \<and> map o_domain results = ds
         \<and> (\<forall>r\<in>set results. o_record r = None \<and> (o_success r \<longleftrightarrow> o_error r = None))"
      using pauseManyZones_loop_entries [of "[]" R ds pause w]
      by (simp add: pauseManyZones_def case_prod_beta pauseManyZones_loop_domains)
  qed
  have d: "\<forall>w. changeManyDomainRedirects R [] url w = (Undefined, w, [])" by simp
  have f: "\<forall>ds w. fst (changeManyDomainRedirects R ds url w) = Undefined"
    by (simp add: changeManyDomainRedirects_returns)
  have e: "\<forall>d ds w res w1 t1 ret w2 t2.
         changeDomainRedirect R d url w = (res, w1, t1)
           \<and> changeManyDomainRedirects R ds url w1 = (ret, w2, t2) \<longrightarrow>
         changeManyDomainRedirects R (d # ds) url w = (Undefined, w2, t1 @ t2)"
  proof (intro allI impI)
    fix d ds w res w1 t1 ret w2 t2
    assume h: "changeDomainRedirect R d url w = (res, w1, t1)
           \<and> changeManyDomainRedirects R ds url w1 = (ret, w2, t2)"
    then have "ret = Undefined" using changeManyDomainRedirects_returns [of R ds url w1] by simp
    with h show "changeManyDomainRedirects R (d # ds) url w = (Undefined, w2, t1 @ t2)" by simp
  qed
  show ?thesis by (intro conjI a b c d e f)
qed

text \<open>
  With the provider unreachable every item fails, and the list is still complete; on the
  test account, a paused zone and a failed lookup are reported side by side.
\<close>

theorem bulk_operations_return_witness:
  "pauseManyZones offline [''a.com'', ''b.com''] True () =
     (Results [\<lparr>o_success = False, o_domain = ''a.com'', o_record = None, o_error = Some ''offline''\<rparr>,
               \<lparr>o_success = False, o_domain = ''b.com'', o_record = None, o_error = Some ''offline''\<rparr>],
      (),
      [GetZones \<lparr>q_name = Some ''a.com'', q_page = None, q_per_page = None\<rparr>,
       GetZones \<lparr>q_name = Some ''b.com'', q_page = None, q_per_page = None\<rparr>])
   \<and> pauseManyZones account [''a.com'', ''down.example''] True [] =
     (Results [\<lparr>o_success = True, o_domain = ''a.com'', o_record = None, o_error = None\<rparr>,
               \<lparr>o_success = False, o_domain = ''down.example'', o_record = None,
                 o_error = Some ''connect ETIMEDOUT''\<rparr>],
      [],
      [GetZones \<lparr>q_name = Some ''a.com'', q_page = None, q_per_page = None\<rparr>,
       PatchZone ''id-a.com'' True,
       GetZones \<lparr>q_name = Some ''down.example'', q_page = None, q_per_page = None\<rparr>])
   \<and> changeManyDomainRedirects offline [''a.com''] ''https://www.salesblaster.ai'' () =
     (Undefined, (), [GetZones \<lparr>q_name = Some ''a.com'', q_page = None, q_per_page = None\<rparr>])"
proof -
  note th = bulk_operations_return [of offline True "''https://www.salesblaster.ai''"]
  note empty = th [THEN conjunct1, rule_format]
  note step = th [THEN conjunct2, THEN conjunct1, rule_format, OF conjI]
  note no_names = th [THEN conjunct2, THEN conjunct2, THEN conjunct2, THEN conjunct1, rule_format]
  note name_step = th [THEN conjunct2, THEN conjunct2, THEN conjunct2, THEN conjunct2, THEN conjunct1,
      rule_format, OF conjI]
  have pz: "pauseZone offline d True () =
      (Inl (Error ''offline''), (), [GetZones \<lparr>q_name = Some d, q_page = None, q_per_page = None\<rparr>])" for d
    by (simp add: pauseZone_def getZoneId_def cloudflareRequest_def offline_def)
  have b: "pauseManyZones offline [''b.com''] True () =
     (Results [\<lparr>o_success = False, o_domain = ''b.com'', o_record = None, o_error = Some ''offline''\<rparr>],
      (), [GetZones \<lparr>q_name = Some ''b.com'', q_page = None, q_per_page = None\<rparr>])"
    using step [OF pz empty] by simp
  have ab: "pauseManyZones offline [''a.com'', ''b.com''] True () =
     (Results [\<lparr>o_success = False, o_domain = ''a.com'', o_record = None, o_error = Some ''offline''\<rparr>,
               \<lparr>o_success = False, o_domain = ''b.com'', o_record = None, o_error = Some ''offline''\<rparr>],
      (),
      [GetZones \<lparr>q_name = Some ''a.com'', q_page = None, q_per_page = None\<rparr>,
       GetZones \<lparr>q_name = Some ''b.com'', q_page = None, q_per_page = None\<rparr>])"
    using step [OF pz b] by simp
  have cd: "changeDomainRedirect offline ''a.com'' ''https://www.salesblaster.ai'' () =
      (Inl (ReferenceError ''zoneId is not defined''), (),
       [GetZones \<lparr>q_name = Some ''a.com'', q_page = None, q_per_page = None\<rparr>])"
    by (simp add: changeDomainRedirect_def changeDomainRedirect_try_def getZoneId_def
          cloudflareRequest_def offline_def)
  have "changeManyDomainRedirects offline [''a.com''] ''https://www.salesblaster.ai'' () =
      (Undefined, (), [GetZones \<lparr>q_name = Some ''a.com'', q_page = None, q_per_page = None\<rparr>] @ [])"
    by (rule name_step [OF cd no_names])
  moreover note ab
  moreover have "pauseManyZones account [''a.com'', ''down.example''] True [] =
     (Results [\<lparr>o_success = True, o_domain = ''a.com'', o_record = None, o_error = None\<rparr>,
               \<lparr>o_success = False, o_domain = ''down.example'', o_record = None,
                 o_error = Some ''connect ETIMEDOUT''\<rparr>],
      [],
      [GetZones \<lparr>q_name = Some ''a.com'', q_page = None, q_per_page = None\<rparr>,
       PatchZone ''id-a.com'' True,
       GetZones \<lparr>q_name = Some ''down.example'', q_page = None, q_per_page = None\<rparr>])"
  proof -
    note th' = bulk_operations_return [of account True "''https://www.salesblaster.ai''"]
    note empty' = th' [THEN conjunct1, rule_format]
    note step' = th' [THEN conjunct2, THEN conjunct1, rule_format, OF conjI]
    have down: "pauseZone account ''down.example'' True [] =
        (Inl (Error ''connect ETIMEDOUT''), [],
         [GetZones \<lparr>q_name = Some ''down.example'', q_page = None, q_per_page = None\<rparr>])"
      by (simp add: pauseZone_def getZoneId_def cloudflareRequest_def account_def)
    have up: "pauseZone account ''a.com'' True [] =
        (Inr \<lparr>m_success = True, m_result = ''{}''\<rparr>, [],
         [GetZones \<lparr>q_name = Some ''a.com'', q_page = None, q_per_page = None\<rparr>,
          PatchZone ''id-a.com'' True])"
      by (simp add: pauseZone_def getZoneId_def cloudflareRequest_def account_def zone_named_def)
    have one: "pauseManyZones account [''down.example''] True [] =
       (Results [\<lparr>o_success = False, o_domain = ''down.example'', o_record = None,
                   o_error = Some ''connect ETIMEDOUT''\<rparr>],
        [], [GetZones \<lparr>q_name = Some ''down.example'', q_page = None, q_per_page = None\<rparr>])"
      using step' [OF down empty'] by simp
    show ?thesis using step' [OF up one] by simp
  qed
  ultimately show ?thesis by simp
qed

text \<open>
  Claim C3 as stated fails for \<^verbatim>\<open>changeManyDomainRedirects\<close>: for one domain whose
  redirect cannot be changed it returns \<^verbatim>\<open>undefined\<close>, not a list with one result.
\<close>

theorem changeManyDomainRedirects_returns_nothing:
  "changeManyDomainRedirects offline [''a.com''] ''https://www.salesblaster.ai'' () =
     (Undefined, (), [GetZones \<lparr>q_name = Some ''a.com'', q_page = None, q_per_page = None\<rparr>])"
  by (simp add: changeDomainRedirect_def changeDomainRedirect_try_def getZoneId_def
        cloudflareRequest_def offline_def)

subsection \<open>Set-difference reconciler\<close>

lemma Map_set_new: "k \<notin> fst ` set m \<Longrightarrow> Map_set m k v = m @ [(k, v)]"
  by (induction m) auto

lemma fold_Map_set_distinct:
  assumes "distinct (map e_name xs)" and "\<forall>d\<in>set xs. e_name d \<notin> fst ` set m"
  shows "fold (\<lambda>domain m. Map_set m (e_name domain) (e_id domain)) xs m =
           m @ map (\<lambda>d. (e_name d, e_id d)) xs"
  using assms
proof (induction xs arbitrary: m)
  case Nil
  then show ?case by simp
next
  case (Cons x xs)
  have new: "Map_set m (e_name x) (e_id x) = m @ [(e_name x, e_id x)]"
    using Cons.prems by (intro Map_set_new) simp
  have dist: "distinct (map e_name xs)" and x: "e_name x \<notin> e_name ` set xs"
    using Cons.prems(1) by simp_all
  have fresh: "\<forall>d\<in>set xs. e_name d \<notin> fst ` set (m @ [(e_name x, e_id x)])"
  proof
    fix d
    assume d: "d \<in> set xs"
    then have "e_name d \<in> e_name ` set xs" by simp
    with x have "e_name d \<noteq> e_name x" by metis
    moreover have "e_name d \<notin> fst ` set m" using Cons.prems(2) d by simp
    ultimately show "e_name d \<notin> fst ` set (m @ [(e_name x, e_id x)])" by simp
  qed
  have "fold (\<lambda>domain m. Map_set m (e_name domain) (e_id domain)) xs (m @ [(e_name x, e_id x)]) =
          (m @ [(e_name x, e_id x)]) @ map (\<lambda>d. (e_name d, e_id d)) xs"
    using dist fresh by (rule Cons.IH)
  then show ?case by (simp add: new)
qed

lemma fold_Map_delete:
  "fold (\<lambda>domain m. Map_delete m domain) ns m = filter (\<lambda>(k, v). k \<notin> set ns) m"
proof (induction ns arbitrary: m)
  case Nil
  then show ?case by simp
next
  case (Cons n ns)
  have "fold (\<lambda>domain m. Map_delete m domain) (n # ns) m =
          filter (\<lambda>(k, v). k \<notin> set ns) (Map_delete m n)"
    by (simp add: Cons.IH)
  also have "\<dots> = filter (\<lambda>(k, v). k \<notin> set (n # ns)) m"
    by (auto simp: Map_delete_def intro!: filter_cong)
  finally show ?case .
qed

lemma fold_exclusions:
  "fold (\<lambda>(file, content) m.
           if file \<noteq> ''all.txt'' \<and> endsWith file ''.txt''
           then fold (\<lambda>domain m'. Map_delete m' domain) (map e_name content) m
           else m) dir m =
     filter (\<lambda>(k, v). k \<notin> set (exclusion_names dir)) m"
proof (induction dir arbitrary: m)
  case Nil
  then show ?case by (simp add: exclusion_names_def)
next
  case (Cons f dir)
  obtain fname content where f: "f = (fname, content)" by (cases f)
  have names: "exclusion_names ((fname, content) # dir) =
      (if fname \<noteq> ''all.txt'' \<and> endsWith fname ''.txt'' then map e_name content else [])
        @ exclusion_names dir"
    by (simp add: exclusion_names_def)
  show ?case
    unfolding f
    by (auto simp: Cons.IH names fold_Map_delete intro!: filter_cong)
qed

lemma entries_roundtrip:
  "map (\<lambda>(name, id). \<lparr>e_id = id, e_name = name\<rparr>)
     (filter (\<lambda>(k, v). k \<notin> E) (map (\<lambda>d. (e_name d, e_id d)) xs)) =
   filter (\<lambda>e. e_name e \<notin> E) xs"
  by (induction xs) auto

lemma writeDomainsToFileByExclusion_filter:
  assumes "map_of dir ''all.txt'' = Some snapshot" and "distinct (map e_name snapshot)"
  shows "writeDomainsToFileByExclusion dir out =
           Inr (out, filter (\<lambda>e. e_name e \<notin> set (exclusion_names dir)) snapshot)"
  using assms
  by (simp add: writeDomainsToFileByExclusion_def fold_Map_set_distinct fold_exclusions
        entries_roundtrip)


lemma map_of_replaced:
  "map_of dir ''all.txt'' = Some old \<Longrightarrow>
   map_of (map (\<lambda>(f, c). if f = ''all.txt'' then (f, new) else (f, c)) dir) ''all.txt'' = Some new"
  by (induction dir) (auto split: if_splits)

lemma exclusion_names_replaced:
  "exclusion_names (map (\<lambda>(f, c). if f = ''all.txt'' then (f, new) else (f, c)) dir) =
     exclusion_names dir"
  by (induction dir) (auto simp: exclusion_names_def)

text \<open>
  Claim C8 (amended). For a directory whose \<^verbatim>\<open>all.txt\<close> holds a snapshot with pairwise
  distinct names, \<^verbatim>\<open>writeDomainsToFileByExclusion\<close> writes exactly the snapshot entries
  whose names appear in no exclusion file, in the snapshot's order. Run again with the
  result as the snapshot and the same exclusion files, it writes the same result. If no
  excluded name occurs in the snapshot, the result is the snapshot.
\<close>

theorem writeDomainsToFileByExclusion_difference:
  assumes "map_of dir ''all.txt'' = Some snapshot" and "distinct (map e_name snapshot)"
  shows "writeDomainsToFileByExclusion dir out =
           Inr (out, set_difference snapshot (exclusion_names dir))
       \<and> writeDomainsToFileByExclusion
           (map (\<lambda>(f, c). if f = ''all.txt''
                           then (f, set_difference snapshot (exclusion_names dir)) else (f, c)) dir) out =
           Inr (out, set_difference snapshot (exclusion_names dir))
       \<and> ((\<forall>n\<in>set (exclusion_names dir). n \<notin> set (map e_name snapshot)) \<longrightarrow>
            set_difference snapshot (exclusion_names dir) = snapshot)"
proof -
  let ?result = "set_difference snapshot (exclusion_names dir)"
  let ?dir' = "map (\<lambda>(f, c). if f = ''all.txt'' then (f, ?result) else (f, c)) dir"
  have first: "writeDomainsToFileByExclusion dir out = Inr (out, ?result)"
    using writeDomainsToFileByExclusion_filter [OF assms] by (simp add: set_difference_def)
  have "distinct (map e_name ?result)"
    using assms(2) by (simp add: set_difference_def distinct_map_filter)
  then have "writeDomainsToFileByExclusion ?dir' out =
      Inr (out, filter (\<lambda>e. e_name e \<notin> set (exclusion_names ?dir')) ?result)"
    by (rule writeDomainsToFileByExclusion_filter [OF map_of_replaced [OF assms(1)]])
  then have again: "writeDomainsToFileByExclusion ?dir' out = Inr (out, ?result)"
    by (simp add: exclusion_names_replaced set_difference_def)
  have noop: "(\<forall>n\<in>set (exclusion_names dir). n \<notin> set (map e_name snapshot)) \<longrightarrow> ?result = snapshot"
    by (auto simp: set_difference_def filter_id_conv)
  show ?thesis using first again noop by blast
qed

text \<open>
  The spec's example: \<^verbatim>\<open>a.com\<close>, \<^verbatim>\<open>b.com\<close>, \<^verbatim>\<open>c.com\<close> with exclusion files listing
  \<^verbatim>\<open>a.com\<close> and \<^verbatim>\<open>c.com\<close> (and a name that is not in the snapshot); a file that is
  not a \<^verbatim>\<open>.txt\<close> file is not an exclusion file.
\<close>

theorem writeDomainsToFileByExclusion_difference_witness:
  "writeDomainsToFileByExclusion
     [(''all.txt'', [\<lparr>e_id = ''1'', e_name = ''a.com''\<rparr>, \<lparr>e_id = ''2'', e_name = ''b.com''\<rparr>,
                     \<lparr>e_id = ''3'', e_name = ''c.com''\<rparr>]),
      (''first.txt'', [\<lparr>e_id = ''1'', e_name = ''a.com''\<rparr>]),
      (''notes.md'', [\<lparr>e_id = ''2'', e_name = ''b.com''\<rparr>]),
      (''second.txt'', [\<lparr>e_id = ''3'', e_name = ''c.com''\<rparr>, \<lparr>e_id = ''9'', e_name = ''z.com''\<rparr>])]
     ''rest.txt'' =
   Inr (''rest.txt'', [\<lparr>e_id = ''2'', e_name = ''b.com''\<rparr>])
   \<and> writeDomainsToFileByExclusion
     [(''all.txt'', [\<lparr>e_id = ''2'', e_name = ''b.com''\<rparr>]),
      (''first.txt'', [\<lparr>e_id = ''1'', e_name = ''a.com''\<rparr>]),
      (''notes.md'', [\<lparr>e_id = ''2'', e_name = ''b.com''\<rparr>]),
      (''second.txt'', [\<lparr>e_id = ''3'', e_name = ''c.com''\<rparr>, \<lparr>e_id = ''9'', e_name = ''z.com''\<rparr>])]
     ''rest.txt'' =
   Inr (''rest.txt'', [\<lparr>e_id = ''2'', e_name = ''b.com''\<rparr>])"
proof -
  let ?snapshot = "[\<lparr>e_id = ''1'', e_name = ''a.com''\<rparr>, \<lparr>e_id = ''2'', e_name = ''b.com''\<rparr>,
                     \<lparr>e_id = ''3'', e_name = ''c.com''\<rparr>]"
  let ?dir = "[(''all.txt'', ?snapshot),
      (''first.txt'', [\<lparr>e_id = ''1'', e_name = ''a.com''\<rparr>]),
      (''notes.md'', [\<lparr>e_id = ''2'', e_name = ''b.com''\<rparr>]),
      (''second.txt'', [\<lparr>e_id = ''3'', e_name = ''c.com''\<rparr>, \<lparr>e_id = ''9'', e_name = ''z.com''\<rparr>])]"
  have a: "map_of ?dir ''all.txt'' = Some ?snapshot" by simp
  have d: "distinct (map e_name ?snapshot)" by simp
  have names: "exclusion_names ?dir = [''a.com'', ''c.com'', ''z.com'']"
    by (simp add: exclusion_names_def endsWith_def)
  show ?thesis
    using writeDomainsToFileByExclusion_difference [OF a d, of "''rest.txt''"]
    unfolding names by (simp add: set_difference_def)
qed

text \<open>
  Claim C8 as stated fails on a snapshot that lists a name twice: the name-keyed map keeps
  one entry per name (the first position, the last id), so the result is not the list of
  the snapshot entries whose names are not excluded.
\<close>

theorem writeDomainsToFileByExclusion_duplicate_names:
  "writeDomainsToFileByExclusion
     [(''all.txt'', [\<lparr>e_id = ''1'', e_name = ''a.com''\<rparr>, \<lparr>e_id = ''2'', e_name = ''a.com''\<rparr>])]
     ''rest.txt'' =
   Inr (''rest.txt'', [\<lparr>e_id = ''2'', e_name = ''a.com''\<rparr>])
   \<and> set_difference [\<lparr>e_id = ''1'', e_name = ''a.com''\<rparr>, \<lparr>e_id = ''2'', e_name = ''a.com''\<rparr>] [] \<noteq>
       [\<lparr>e_id = ''2'', e_name = ''a.com''\<rparr>]"
  by (simp add: writeDomainsToFileByExclusion_def set_difference_def)

subsection \<open>Mapping builder\<close>

lemma createDomainRecordsMap_loop_builds:
  assumes "\<forall>(d, v)\<in>set (entries_of lines). d \<notin> set Object_prototype_keys"
  shows "createDomainRecordsMap_loop lines m reports =
           (Inr (\<lambda>d. if records_of (entries_of lines) d = [] then m d
                       else Some ((case m d of None \<Rightarrow> [] | Some rs \<Rightarrow> rs)
                                  @ records_of (entries_of lines) d)),
            reports @ map (\<lambda>l. ''Invalid line format in records file: '' @ l) (rejected_of lines))"
  using assms
proof (induction lines arbitrary: m reports)
  case Nil
  then show ?case by (simp add: entries_of_def rejected_of_def records_of_def)
next
  case (Cons l lines)
  have rest: "\<forall>(d, v)\<in>set (entries_of lines). d \<notin> set Object_prototype_keys"
    using Cons.prems by (auto simp: entries_of_def)
  note IH = Cons.IH [OF rest]
  consider (skip) "\<not> data_line l"
    | (invalid) "data_line l" "length (line_fields l) < 2"
    | (entry) "data_line l" "2 \<le> length (line_fields l)"
    by fastforce
  then show ?case
  proof cases
    case skip
    then have e: "entries_of (l # lines) = entries_of lines"
      and r: "rejected_of (l # lines) = rejected_of lines"
      by (simp_all add: entries_of_def rejected_of_def)
    have step: "createDomainRecordsMap_loop (l # lines) m reports =
        createDomainRecordsMap_loop lines m reports"
      using skip by (auto simp: data_line_def)
    show ?thesis unfolding step e r IH by simp
  next
    case invalid
    then have e: "entries_of (l # lines) = entries_of lines"
      and r: "rejected_of (l # lines) = l # rejected_of lines"
      by (simp_all add: entries_of_def rejected_of_def)
    have step: "createDomainRecordsMap_loop (l # lines) m reports =
        createDomainRecordsMap_loop lines m (reports @ [''Invalid line format in records file: '' @ l])"
      using invalid by (auto simp: data_line_def line_fields_def Let_def)
    show ?thesis unfolding step e r IH by simp
  next
    case entry
    define d0 where "d0 = line_fields l ! 0"
    define v0 where "v0 = line_fields l ! 1"
    have e: "entries_of (l # lines) = (d0, v0) # entries_of lines"
      and r: "rejected_of (l # lines) = rejected_of lines"
      using entry by (simp_all add: entries_of_def rejected_of_def d0_def v0_def)
    have ok: "d0 \<notin> set Object_prototype_keys"
      using Cons.prems by (simp add: e)
    have step: "createDomainRecordsMap_loop (l # lines) m reports =
        createDomainRecordsMap_loop lines
          (m(d0 \<mapsto> (case m d0 of None \<Rightarrow> [] | Some records \<Rightarrow> records) @ [txt_record v0])) reports"
      using entry ok by (auto simp: data_line_def line_fields_def Let_def d0_def v0_def)
    have recs: "records_of (entries_of (l # lines)) d =
        (if d = d0 then [txt_record v0] else []) @ records_of (entries_of lines) d" for d
      by (auto simp: e records_of_def)
    show ?thesis
      unfolding step IH r
      by (auto simp: recs fun_eq_iff)
  qed
qed

lemma split_runs_field:
  "\<forall>c\<in>set f. \<not> sep c \<Longrightarrow> split_runs sep False cur (f @ rest) = split_runs sep False (cur @ f) rest"
  by (induction f arbitrary: cur) simp_all

lemma split_runs_run:
  "\<forall>c\<in>set run. sep c \<Longrightarrow> rest = [] \<or> \<not> sep (hd rest) \<Longrightarrow>
   split_runs sep True [] (run @ rest) = split_runs sep False [] rest"
  by (induction run) (cases rest; simp)+

lemma split_tabs_single:
  assumes "\<forall>c\<in>set f. c \<noteq> CHR 0x09"
  shows "split_tabs f = [f]"
  using split_runs_field [of f "\<lambda>c. c = CHR 0x09" "[]" "[]"] assms by (simp add: split_tabs_def)

lemma split_tabs_first:
  assumes "\<forall>c\<in>set f. c \<noteq> CHR 0x09" and "run \<noteq> []" and "\<forall>c\<in>set run. c = CHR 0x09"
    and "rest = [] \<or> hd rest \<noteq> CHR 0x09"
  shows "split_tabs (f @ run @ rest) = f # split_tabs rest"
proof -
  obtain r rs where run: "run = r # rs" using assms(2) by (cases run) auto
  have "split_runs (\<lambda>c. c = CHR 0x09) False [] (f @ run @ rest) =
          split_runs (\<lambda>c. c = CHR 0x09) False f (run @ rest)"
    using split_runs_field [of f "\<lambda>c. c = CHR 0x09" "[]" "run @ rest"] assms(1) by simp
  also have "\<dots> = f # split_runs (\<lambda>c. c = CHR 0x09) True [] (rs @ rest)"
    using assms(3) by (simp add: run)
  also have "\<dots> = f # split_runs (\<lambda>c. c = CHR 0x09) False [] rest"
    using split_runs_run [of rs "\<lambda>c. c = CHR 0x09" rest] assms(3,4) by (simp add: run)
  finally show ?thesis by (simp add: split_tabs_def)
qed

lemma split_runs_nonempty: "1 \<le> length (split_runs sep b cur s)"
  by (induction s arbitrary: b cur) simp_all

lemma split_runs_two:
  "\<exists>c\<in>set s. sep c \<Longrightarrow> 2 \<le> length (split_runs sep False cur s)"
proof (induction s arbitrary: cur)
  case Nil
  then show ?case by simp
next
  case (Cons c cs)
  show ?case
  proof (cases "sep c")
    case True
    then show ?thesis using split_runs_nonempty [of sep True "[]" cs] by simp
  next
    case False
    then have "\<exists>c\<in>set cs. sep c" using Cons.prems by auto
    then show ?thesis using Cons.IH [of "cur @ [c]"] False by simp
  qed
qed

lemma split_tabs_two_iff: "2 \<le> length (split_tabs s) \<longleftrightarrow> CHR 0x09 \<in> set s"
proof
  assume two: "2 \<le> length (split_tabs s)"
  show "CHR 0x09 \<in> set s"
  proof (rule ccontr)
    assume "CHR 0x09 \<notin> set s"
    then have "\<forall>c\<in>set s. c \<noteq> CHR 0x09" by auto
    then have "split_tabs s = [s]" by (rule split_tabs_single)
    with two show False by simp
  qed
next
  assume "CHR 0x09 \<in> set s"
  then have "\<exists>c\<in>set s. c = CHR 0x09" by auto
  then show "2 \<le> length (split_tabs s)"
    unfolding split_tabs_def by (rule split_runs_two)
qed

text \<open>
  Claim C7 (amended). Let the file be readable and let no entry's domain be the name of a
  property that a plain object inherits. Then \<^verbatim>\<open>createDomainRecordsMapFromTextFile\<close>
  returns the map that gives every domain the TXT apex records of its entries, in the
  order of the lines, and no key to a domain without entry; and it reports exactly the
  rejected lines, in order: a rejected line stops nothing. The fields of a line are split
  on runs of tabs only: a text has two fields or more exactly when it contains a tab; a
  text without tab is one field; and a text that starts with a tab-free piece followed by
  a run of tabs has that piece as its first field, the other fields being those of the
  text after the run. A space does not separate fields.
\<close>

theorem createDomainRecordsMapFromTextFile_builds:
  assumes "readFile filePath = Inr content"
    and "\<forall>(d, v)\<in>set (entries_of (split_lines [] content)). d \<notin> set Object_prototype_keys"
  shows "createDomainRecordsMapFromTextFile readFile filePath =
           (Some (\<lambda>d. if records_of (entries_of (split_lines [] content)) d = [] then None
                       else Some (records_of (entries_of (split_lines [] content)) d)),
            map (\<lambda>l. ''Invalid line format in records file: '' @ l)
              (rejected_of (split_lines [] content)))
       \<and> (\<forall>s. 2 \<le> length (split_tabs s) \<longleftrightarrow> CHR 0x09 \<in> set s)
       \<and> (\<forall>f. (\<forall>c\<in>set f. c \<noteq> CHR 0x09) \<longrightarrow> split_tabs f = [f])
       \<and> (\<forall>f run rest. (\<forall>c\<in>set f. c \<noteq> CHR 0x09) \<and> run \<noteq> [] \<and> (\<forall>c\<in>set run. c = CHR 0x09)
             \<and> (rest = [] \<or> hd rest \<noteq> CHR 0x09) \<longrightarrow>
             split_tabs (f @ run @ rest) = f # split_tabs rest)"
  using assms split_tabs_single split_tabs_first split_tabs_two_iff
  by (simp add: createDomainRecordsMapFromTextFile_def createDomainRecordsMap_loop_builds fun_eq_iff)

lemma domains_txt_lines:
  "split_lines [] domains_txt =
     [''# verification records'',
      [],
      ''example.com'' @ [CHR 0x09] @ ''google-site-verification=abc'',
      ''example.org google-site-verification=xyz'',
      ''  example.com'' @ [CHR 0x09, CHR 0x09] @ ''v=spf1 include:_spf.google.com ~all'' @ [CHR 0x0D],
      []]"
  by (simp add: domains_txt_def)

lemma domains_txt_entries:
  "entries_of (split_lines [] domains_txt) =
     [(''example.com'', ''google-site-verification=abc''),
      (''example.com'', ''v=spf1 include:_spf.google.com ~all'')]"
  unfolding domains_txt_lines
  by (simp add: entries_of_def data_line_def line_fields_def trim_def js_whitespace_def
        startsWith_def split_tabs_def)

lemma domains_txt_rejected:
  "rejected_of (split_lines [] domains_txt) = [''example.org google-site-verification=xyz'']"
  unfolding domains_txt_lines
  by (simp add: rejected_of_def data_line_def line_fields_def trim_def js_whitespace_def
        startsWith_def split_tabs_def)

text \<open>
  On the records file above: two records for \<^verbatim>\<open>example.com\<close>, none for
  \<^verbatim>\<open>example.org\<close>, whose line is reported.
\<close>

theorem createDomainRecordsMapFromTextFile_builds_witness:
  "map_option (\<lambda>recordsMap. (recordsMap ''example.com'', recordsMap ''example.org''))
     (fst (createDomainRecordsMapFromTextFile (\<lambda>filePath. Inr domains_txt) ''domains.txt'')) =
     Some (Some [txt_record ''google-site-verification=abc'',
                 txt_record ''v=spf1 include:_spf.google.com ~all''], None)
   \<and> snd (createDomainRecordsMapFromTextFile (\<lambda>filePath. Inr domains_txt) ''domains.txt'') =
       [''Invalid line format in records file: example.org google-site-verification=xyz'']"
proof -
  have ok: "\<forall>(d, v)\<in>set (entries_of (split_lines [] domains_txt)). d \<notin> set Object_prototype_keys"
    unfolding domains_txt_entries by (simp add: Object_prototype_keys_def)
  have "createDomainRecordsMapFromTextFile (\<lambda>filePath. Inr domains_txt) ''domains.txt'' =
           (Some (\<lambda>d. if records_of (entries_of (split_lines [] domains_txt)) d = [] then None
                       else Some (records_of (entries_of (split_lines [] domains_txt)) d)),
            map (\<lambda>l. ''Invalid line format in records file: '' @ l)
              (rejected_of (split_lines [] domains_txt)))"
    using createDomainRecordsMapFromTextFile_builds [where readFile = "\<lambda>filePath. Inr domains_txt"
        and filePath = "''domains.txt''" and content = domains_txt] ok
    by blast
  then show ?thesis
    unfolding domains_txt_entries domains_txt_rejected
    by (simp add: records_of_def)
qed

text \<open>
  Claim C7 as stated fails on a line whose two fields are separated by a space: it has two
  white-space-delimited fields, and the builder rejects it for having fewer than two.
\<close>

theorem createDomainRecordsMapFromTextFile_space_separated:
  "createDomainRecordsMapFromTextFile (\<lambda>filePath. Inr ''example.com google-site-verification=abc'')
     ''domains.txt'' =
     (Some Map.empty, [''Invalid line format in records file: example.com google-site-verification=abc''])"
  by (simp add: createDomainRecordsMapFromTextFile_def trim_def js_whitespace_def startsWith_def
        split_tabs_def)

end
